theory Spec2Isabelle
  imports Main "HOL-Library.Char_ord" "HOL-Library.List_Lexorder" "HOL-Library.Sublist"
begin

section \<open>Data model of the session module\<close>

text \<open>
  The development follows the class \<^verbatim>\<open>Session\<close> of the session module.  JavaScript runs
  the module on one thread: a method runs without interruption up to its next
  \<^verbatim>\<open>await\<close>, and everything that happens later (a promise settling, a timer firing, a
  \<^verbatim>\<open>then\<close> callback running) is a separate step.  Objects that are shared by reference
  (sessions, promises, the logger, the limiter) are addressed through references into a
  store; everything else is a value.
\<close>

type_synonym ref = nat

datatype error = Error string

text \<open>What the module prints: the three levels of the logger, and \<^verbatim>\<open>console.log\<close>.\<close>

datatype log_entry = Debug string | Info string | LogError string error | Console string

text \<open>
  JSON-like values, as far as the fields of a build warning need them: strings, \<^verbatim>\<open>null\<close>,
  whole numbers (line and column) and nested objects (the position).  An object is the
  list of its own enumerable properties in insertion order, which is what
  \<^verbatim>\<open>Object.entries\<close> enumerates.
\<close>

datatype jsval = JNull | JStr string | JNum int | JObj "(string \<times> jsval) list"

type_synonym warning = "(string \<times> jsval) list"

text \<open>
  The redux store, cut down to what the session module reads from it through its
  selectors: the current site path, the current project path and the file warnings.
\<close>

record store_state =
  currentSitePath :: "string option"
  currentProjectPath :: "string option"
  fileWarnings :: "warning list"

datatype plugin = MystPlugin nat

text \<open>
  The fields of \<^verbatim>\<open>Session\<close>.  \<open>logger\<close> and \<open>doiLimiter\<close> are references to the shared
  logger and limiter objects, \<open>proxyAgent\<close> holds the proxy URL of the
  \<^verbatim>\<open>HttpsProxyAgent\<close> when there is one, the two promise fields are references into the
  promise store (\<open>None\<close> is \<^verbatim>\<open>undefined\<close>), and \<open>clones\<close> lists references to sessions.
  The fields of the upgrade notice are left out.
\<close>

record session =
  logger :: ref
  doiLimiter :: ref
  proxyAgent :: "string option"
  store :: store_state
  jupyterSessionManagerPromise :: "ref option"
  pluginPromise :: "ref option"
  plugins :: "plugin option"
  clones :: "ref list"

section \<open>\<^verbatim>\<open>fetch\<close>\<close>

text \<open>
  The request URL after \<^verbatim>\<open>new URL(...)\<close> has parsed it: parsing is the platform's, so the
  model starts from the parsed URL and reads its \<open>hostname\<close> as the code does.
\<close>

record URL =
  href :: string
  hostname :: string

text \<open>
  The options object \<^verbatim>\<open>init\<close>: a finite map from keys to values, a value being an agent
  object (named by a string) or anything else.  \<open>None\<close> at the outside is \<^verbatim>\<open>undefined\<close>.
\<close>

datatype init_value = Agent string | Plain string

type_synonym request_init = "string \<rightharpoonup> init_value"

datatype response = Response nat

definition LOCALHOSTS :: "string list" where
  "LOCALHOSTS = [''localhost'', ''127.0.0.1'', ''::1'']"

text \<open>
  Lines 131 to 137 of \<^verbatim>\<open>fetch\<close>: the debug line, and, when the session has a proxy agent
  and the host name is not in \<open>LOCALHOSTS\<close>, the object spread
  \<^verbatim>\<open>{ agent: this.proxyAgent, ...init }\<close> (the keys of \<^verbatim>\<open>init\<close> are written after
  \<^verbatim>\<open>agent\<close>, so they win) and the second debug line.  The result is the options handed to
  \<^verbatim>\<open>nodeFetch\<close> and the log lines written.
\<close>

definition fetch_prepare ::
  "session \<Rightarrow> URL \<Rightarrow> request_init option \<Rightarrow> request_init option \<times> log_entry list" where
  "fetch_prepare s urlOnly init =
     (let lg = [Debug (''Fetching: '' @ href urlOnly)] in
      case proxyAgent s of
        None \<Rightarrow> (init, lg)
      | Some a \<Rightarrow>
          if hostname urlOnly \<notin> set LOCALHOSTS
          then (let init0 = (case init of None \<Rightarrow> Map.empty | Some i \<Rightarrow> i)
                in (Some ([''agent'' \<mapsto> Agent a] ++ init0),
                    lg @ [Debug (''Using HTTPS proxy: '' @ a)]))
          else (init, lg))"

text \<open>
  The rest of \<^verbatim>\<open>fetch\<close>, lines 138 to 144.  After the timer is armed and \<^verbatim>\<open>nodeFetch\<close> is
  called, two things happen later, in either order: the timer fires (once, after five
  seconds), and the network call settles.  \<open>logData_done\<close> is the flag \<^verbatim>\<open>logData.done\<close>,
  \<open>settled\<close> is what the promise returned by \<^verbatim>\<open>fetch\<close> has settled with, and
  \<open>network_calls\<close> counts the calls of \<^verbatim>\<open>nodeFetch\<close>.
\<close>

record fetch_task =
  passed_init :: "request_init option"
  logData_done :: bool
  fetch_log :: "log_entry list"
  settled :: "(error + response) option"
  network_calls :: nat

datatype fetch_event = TimerFires | NetworkSettles "error + response"

definition hourglass :: string where
  "hourglass = [CHR 0xE2, CHR 0x8F, CHR 0xB3]"

definition fetch_start :: "session \<Rightarrow> URL \<Rightarrow> request_init option \<Rightarrow> fetch_task" where
  "fetch_start s urlOnly init =
     (case fetch_prepare s urlOnly init of
        (init', lg) \<Rightarrow>
          \<lparr>passed_init = init', logData_done = False, fetch_log = lg,
           settled = None, network_calls = 1\<rparr>)"

text \<open>
  The timer callback logs unless \<^verbatim>\<open>logData.done\<close> is set.  When the network call
  fulfils, \<^verbatim>\<open>await\<close> returns, line 143 sets the flag and the response is returned; when
  it rejects, \<^verbatim>\<open>await\<close> throws, the function is left at line 142 and the promise of
  \<^verbatim>\<open>fetch\<close> rejects with the same error: line 143 is not run.
\<close>

fun fetch_step :: "URL \<Rightarrow> fetch_task \<Rightarrow> fetch_event \<Rightarrow> fetch_task" where
  "fetch_step u t TimerFires =
     (if \<not> logData_done t
      then t\<lparr>fetch_log := fetch_log t @
             [Info (hourglass @ '' Waiting for response from '' @ href u)]\<rparr>
      else t)"
| "fetch_step u t (NetworkSettles (Inr resp)) =
     (if settled t = None then t\<lparr>logData_done := True, settled := Some (Inr resp)\<rparr> else t)"
| "fetch_step u t (NetworkSettles (Inl e)) =
     (if settled t = None then t\<lparr>settled := Some (Inl e)\<rparr> else t)"

definition fetch :: "session \<Rightarrow> URL \<Rightarrow> request_init option \<Rightarrow> fetch_event list \<Rightarrow> fetch_task" where
  "fetch s u init evs = foldl (fetch_step u) (fetch_start s u init) evs"

section \<open>Acquiring the execution backend\<close>

text \<open>
  An event of the build stream (\<^verbatim>\<open>data\<close> in the loop): its phase tag, its message, and
  the URL and token that a \<^verbatim>\<open>ready\<close> event carries (\<open>None\<close> is \<^verbatim>\<open>undefined\<close>).  Every
  event carries a message, as the data model of the build stream has it.  Reading the
  stream either yields an event or throws.
\<close>

record build_event =
  phase :: string
  message :: string
  url :: "string option"
  token :: "string option"

datatype stream_item = Yield build_event | Throw error

text \<open>
  \<^verbatim>\<open>JupyterServerSettings\<close>: the part of the connection settings a strategy has found,
  and whether the object carries a \<^verbatim>\<open>dispose\<close> function.
\<close>

record server_settings =
  baseUrl :: "string option"
  token :: "string option"
  appUrl :: "string option"
  has_dispose :: bool

text \<open>
  The session manager that \<^verbatim>\<open>createJupyterSessionManager\<close> returns, known by the partial
  settings it was made from.  Its kernel manager is made from the same settings.
\<close>

record manager =
  partialServerSettings :: "server_settings option"

text \<open>The environment variables the module reads.\<close>

record process_env =
  BINDER_REPO_SPEC :: "string option"
  JUPYTER_BASE_URL :: "string option"
  JUPYTER_TOKEN :: "string option"
  HTTPS_PROXY :: "string option"

text \<open>
  What the world outside the module answers during one acquisition; the libraries
  behind these calls are not part of the module, so their answers are inputs.
  \<^item> \<open>build_events\<close>: what the iterator of \<^verbatim>\<open>repo.fetch()\<close> hands out, in order, as long
    as nobody closes it (the end of the list is the end of the stream);
  \<^item> \<open>delivered_after_close\<close>: how many of the items not yet read the iterator still
    hands out after \<^verbatim>\<open>repo.close()\<close> (\<open>0\<close> when closing ends the iteration at once);
  \<^item> \<open>existing_server\<close>: the answer of \<^verbatim>\<open>findExistingJupyterServer\<close>;
  \<^item> \<open>launched_server\<close>: the answer of \<^verbatim>\<open>launchJupyterServer\<close>;
  \<^item> \<open>connection_error\<close>: the exception, if any, that \<^verbatim>\<open>ServerConnection.makeSettings\<close>,
    the two manager constructors or \<^verbatim>\<open>disposed.connect\<close> throw;
  \<^item> \<open>resolve_path\<close>: \<^verbatim>\<open>path.resolve\<close>.
\<close>

record services =
  build_events :: "stream_item list"
  delivered_after_close :: nat
  existing_server :: "error + server_settings option"
  launched_server :: "error + server_settings"
  connection_error :: "error option"
  resolve_path :: "string \<Rightarrow> string"

definition is_space :: "char \<Rightarrow> bool" where
  "is_space c \<longleftrightarrow> c \<in> set [CHR 0x20, CHR 0x09, CHR 0x0A, CHR 0x0B, CHR 0x0C, CHR 0x0D]"

text \<open>\<^verbatim>\<open>String.prototype.trim\<close>, on the white space of ASCII.\<close>

definition trim :: "string \<Rightarrow> string" where
  "trim s = rev (dropWhile is_space (rev (dropWhile is_space s)))"

text \<open>Line 223: what \<^verbatim>\<open>console.log\<close> prints for an event.\<close>

definition console_line :: "build_event \<Rightarrow> log_entry" where
  "console_line d = Console (''['' @ phase d @ ''] '' @ trim (message d))"

text \<open>Lines 226 to 229: the partial settings the case \<^verbatim>\<open>"ready"\<close> builds from an event.\<close>

definition settings_of_event :: "build_event \<Rightarrow> server_settings" where
  "settings_of_event d =
     \<lparr>baseUrl = url d, token = build_event.token d, appUrl = None, has_dispose = False\<rparr>"

text \<open>
  The loop of lines 222 to 236 over the items still to come, with the settings found so
  far and the lines printed so far.  The \<^verbatim>\<open>break\<close> of the case \<^verbatim>\<open>"ready"\<close> leaves the
  \<^verbatim>\<open>switch\<close>, not the loop: after \<^verbatim>\<open>repo.close()\<close> the loop asks the iterator for the next
  item, and goes on with whatever the closed stream still hands out.  The \<^verbatim>\<open>throw\<close> of
  the case \<^verbatim>\<open>"failed"\<close> and an exception of the iterator leave the loop with the error.
\<close>

fun consume_events ::
  "nat \<Rightarrow> stream_item list \<Rightarrow> server_settings option \<Rightarrow> log_entry list \<Rightarrow>
   (error + server_settings option) \<times> log_entry list" where
  "consume_events k [] found lg = (Inr found, lg)"
| "consume_events k (Throw e # rest) found lg = (Inl e, lg)"
| "consume_events k (Yield d # rest) found lg =
     (if phase d = ''ready''
      then consume_events k (take k rest) (Some (settings_of_event d)) (lg @ [console_line d])
      else if phase d = ''failed''
      then (Inl (Error ''Trying to build the repository failed''), lg @ [console_line d])
      else consume_events k rest found (lg @ [console_line d]))"

text \<open>\<^verbatim>\<open>sourcePath\<close>: the site path, else the project path, else \<^verbatim>\<open>'.'\<close>, resolved.\<close>

definition sourcePath :: "(string \<Rightarrow> string) \<Rightarrow> session \<Rightarrow> string" where
  "sourcePath resolve s =
     resolve (case currentSitePath (store s) of
                Some sitePath \<Rightarrow> sitePath
              | None \<Rightarrow> (case currentProjectPath (store s) of
                           Some projectPath \<Rightarrow> projectPath
                         | None \<Rightarrow> ''.''))"

text \<open>
  Lines 219 to 255: the strategy that finds the partial server settings.  The remote
  build is taken when \<^verbatim>\<open>BINDER_REPO_SPEC\<close> is defined, the configured endpoint when
  \<^verbatim>\<open>JUPYTER_BASE_URL\<close> is, else a running server is looked for and, when there is none,
  one is launched.  The result is the settings or the exception thrown, and the lines
  written.
\<close>

definition find_settings ::
  "process_env \<Rightarrow> services \<Rightarrow> session \<Rightarrow> (error + server_settings option) \<times> log_entry list" where
  "find_settings pe sv s =
     (case BINDER_REPO_SPEC pe of
        Some spec \<Rightarrow> consume_events (delivered_after_close sv) (build_events sv) None []
      | None \<Rightarrow>
         (case JUPYTER_BASE_URL pe of
            Some b \<Rightarrow>
              (Inr (Some \<lparr>baseUrl = Some b, token = JUPYTER_TOKEN pe, appUrl = None,
                          has_dispose = False\<rparr>), [])
          | None \<Rightarrow>
             (case existing_server sv of
                Inl e \<Rightarrow> (Inl e, [])
              | Inr (Some existing) \<Rightarrow>
                  (Inr (Some existing),
                   [Debug (''Found existing server on: '' @
                      (case appUrl existing of Some a \<Rightarrow> a | None \<Rightarrow> ''undefined''))])
              | Inr None \<Rightarrow>
                  (let lg = [Debug (''Launching jupyter server on '' @
                                    sourcePath (resolve_path sv) s)]
                   in case launched_server sv of
                        Inl e \<Rightarrow> (Inl e, lg)
                      | Inr launched \<Rightarrow> (Inr (Some launched), lg)))))"

text \<open>
  The body of the \<^verbatim>\<open>try\<close>, lines 219 to 266: the settings, then the connection settings,
  the kernel manager, the session manager and the handler tied to its \<^verbatim>\<open>disposed\<close>
  signal.
\<close>

definition try_acquire ::
  "process_env \<Rightarrow> services \<Rightarrow> session \<Rightarrow> (error + manager) \<times> log_entry list" where
  "try_acquire pe sv s =
     (case find_settings pe sv s of
        (Inl e, lg) \<Rightarrow> (Inl e, lg)
      | (Inr partial, lg) \<Rightarrow>
          (case connection_error sv of
             Some e \<Rightarrow> (Inl e, lg)
           | None \<Rightarrow> (Inr \<lparr>partialServerSettings = partial\<rparr>, lg)))"

text \<open>
  \<^verbatim>\<open>createJupyterSessionManager\<close>: the \<^verbatim>\<open>try\<close> with its \<^verbatim>\<open>catch\<close>.  The result is what the
  promise of the async function settles with (\<open>Inl\<close>: it rejects; \<open>Inr None\<close>: it fulfils
  with \<^verbatim>\<open>undefined\<close>), and the lines written.
\<close>

definition createJupyterSessionManager ::
  "process_env \<Rightarrow> services \<Rightarrow> session \<Rightarrow> (error + manager option) \<times> log_entry list" where
  "createJupyterSessionManager pe sv s =
     (case try_acquire pe sv s of
        (Inr m, lg) \<Rightarrow> (Inr (Some m), lg)
      | (Inl err, lg) \<Rightarrow>
          (Inr None, lg @ [LogError ''Unable to instantiate connection to Jupyter Server'' err]))"

section \<open>Sessions, promises and the steps of the event loop\<close>

text \<open>
  A promise is pending, fulfilled with a value or rejected with an error, and never
  changes once it has settled.  The promises of this module are fulfilled with a session
  manager, with \<^verbatim>\<open>undefined\<close> or with a plugin registry.  \<open>made_by\<close> records which async
  call made the promise, and for which session.
\<close>

datatype settled_value = Manager manager | Undefined | Plugins plugin

datatype promise_state = Pending | Fulfilled settled_value | Rejected error

datatype task = Acquisition ref | PluginLoad ref

record promise =
  state :: promise_state
  made_by :: task

text \<open>
  The callbacks the module leaves on a promise: the \<^verbatim>\<open>then\<close> of \<^verbatim>\<open>dispose\<close>, which
  disposes the manager, and the rest of \<^verbatim>\<open>loadPlugins\<close> after its \<^verbatim>\<open>await\<close>, which assigns
  \<^verbatim>\<open>this.plugins\<close> for the given session.
\<close>

datatype reaction = DisposeManager | AssignPlugins ref

text \<open>
  What can be observed from outside: an async factory being started, a line being
  logged, the teardown calls made on a manager, its kernel manager and the server behind
  its settings, and a rejection nobody handles.
\<close>

datatype effect =
    Started task
  | Logged log_entry
  | ManagerDisposed manager
  | KernelManagerDisposed manager
  | ServerDisposed server_settings
  | Unhandled error

record world =
  penv :: process_env
  sessions :: "session list"
  promises :: "promise list"
  reactions :: "(ref \<times> reaction) list"
  trace :: "effect list"

definition slot :: "ref \<Rightarrow> world \<Rightarrow> ref option" where
  "slot sid w = jupyterSessionManagerPromise (sessions w ! sid)"

definition acquisitions :: "ref \<Rightarrow> world \<Rightarrow> nat" where
  "acquisitions sid w = count_list (trace w) (Started (Acquisition sid))"

definition plugin_loads :: "ref \<Rightarrow> world \<Rightarrow> nat" where
  "plugin_loads sid w = count_list (trace w) (Started (PluginLoad sid))"

definition promise_state_of :: "ref \<Rightarrow> world \<Rightarrow> promise_state" where
  "promise_state_of p w = state (promises w ! p)"

text \<open>
  Calling an async function: the call returns a new pending promise at once; what the
  promise settles with is decided in a later step.
\<close>

definition start_task :: "task \<Rightarrow> world \<Rightarrow> ref \<times> world" where
  "start_task t w =
     (length (promises w),
      w\<lparr>promises := promises w @ [\<lparr>state = Pending, made_by = t\<rparr>],
        trace := trace w @ [Started t]\<rparr>)"

text \<open>
  \<^verbatim>\<open>jupyterSessionManager\<close>, lines 210 to 215, for the session \<open>sid\<close>: the reference of the
  promise it returns, and the world afterwards.
\<close>

definition jupyterSessionManager :: "ref \<Rightarrow> world \<Rightarrow> ref \<times> world" where
  "jupyterSessionManager sid w =
     (case jupyterSessionManagerPromise (sessions w ! sid) of
        None \<Rightarrow>
          (case start_task (Acquisition sid) w of
             (p, w') \<Rightarrow>
               (p, w'\<lparr>sessions := (sessions w')
                      [sid := (sessions w' ! sid)\<lparr>jupyterSessionManagerPromise := Some p\<rparr>]\<rparr>))
      | Some p \<Rightarrow> (p, w))"

text \<open>
  \<^verbatim>\<open>loadPlugins\<close>, lines 151 to 157, up to its \<^verbatim>\<open>await\<close>; the assignment of
  \<^verbatim>\<open>this.plugins\<close> is left on the promise as a reaction.  The promise an async function
  returns takes over the outcome of the promise it returns or awaits, so the call is
  known by the promise in the slot.
\<close>

definition loadPlugins :: "ref \<Rightarrow> world \<Rightarrow> ref \<times> world" where
  "loadPlugins sid w =
     (case pluginPromise (sessions w ! sid) of
        Some p \<Rightarrow> (p, w)
      | None \<Rightarrow>
          (case start_task (PluginLoad sid) w of
             (p, w') \<Rightarrow>
               (p, w'\<lparr>sessions := (sessions w')
                        [sid := (sessions w' ! sid)\<lparr>pluginPromise := Some p\<rparr>],
                      reactions := reactions w' @ [(p, AssignPlugins sid)]\<rparr>)))"

text \<open>
  \<^verbatim>\<open>dispose\<close>, lines 273 to 278: the \<^verbatim>\<open>then\<close> leaves a reaction on the promise, the slot
  is cleared, and nothing else runs before \<^verbatim>\<open>dispose\<close> returns.
\<close>

definition dispose :: "ref \<Rightarrow> world \<Rightarrow> world" where
  "dispose sid w =
     (case jupyterSessionManagerPromise (sessions w ! sid) of
        Some p \<Rightarrow>
          w\<lparr>reactions := reactions w @ [(p, DisposeManager)],
            sessions := (sessions w)
              [sid := (sessions w ! sid)\<lparr>jupyterSessionManagerPromise := None\<rparr>]\<rparr>
      | None \<Rightarrow> w)"

text \<open>
  The constructor, for the options \<^verbatim>\<open>clone\<close> passes: the given logger and limiter, a proxy
  agent when \<^verbatim>\<open>HTTPS_PROXY\<close> is a non-empty string, and a new store.
\<close>

definition initial_store :: store_state where
  "initial_store = \<lparr>currentSitePath = None, currentProjectPath = None, fileWarnings = []\<rparr>"

definition new_Session :: "process_env \<Rightarrow> ref \<Rightarrow> ref \<Rightarrow> session" where
  "new_Session pe lg lim =
     \<lparr>logger = lg, doiLimiter = lim,
      proxyAgent = (case HTTPS_PROXY pe of
                      None \<Rightarrow> None
                    | Some proxyUrl \<Rightarrow> if proxyUrl = [] then None else Some proxyUrl),
      store = initial_store,
      jupyterSessionManagerPromise = None, pluginPromise = None, plugins = None,
      clones = []\<rparr>"

text \<open>
  \<^verbatim>\<open>clone\<close>, lines 185 to 192.  The new session cannot be reached by anyone before
  \<^verbatim>\<open>clone\<close> returns it, so the model takes the step in which \<^verbatim>\<open>reload\<close> has finished:
  \<open>reloaded\<close> is the state \<^verbatim>\<open>reload\<close> has read into the new store, or the error it
  failed with (then \<^verbatim>\<open>clone\<close> rejects and nothing is recorded).  The result is the
  reference of the clone.
\<close>

definition clone :: "ref \<Rightarrow> error + store_state \<Rightarrow> world \<Rightarrow> (error + ref) \<times> world" where
  "clone sid reloaded w =
     (let this = sessions w ! sid;
          cloneSession = new_Session (penv w) (logger this) (doiLimiter this)
      in case reloaded of
           Inl e \<Rightarrow> (Inl e, w)
         | Inr st \<Rightarrow>
             (Inr (length (sessions w)),
              w\<lparr>sessions :=
                  (sessions w)[sid := this\<lparr>clones := clones this @ [length (sessions w)]\<rparr>]
                  @ [cloneSession\<lparr>store := st,
                       jupyterSessionManagerPromise := jupyterSessionManagerPromise this\<rparr>]\<rparr>))"

text \<open>
  The steps that are not calls.  An acquisition settles with the outcome of
  \<^verbatim>\<open>createJupyterSessionManager\<close> for what the services answered, and the lines it has
  written are added to the trace in that step (the body touches nothing of the session
  but its logger and its source path, so the order of its lines among those of other
  tasks is all that the single step leaves out); a plugin load settles with the registry
  or the error of the loader.  Only a pending promise settles.
\<close>

definition settle_with :: "error + manager option \<Rightarrow> promise_state" where
  "settle_with r =
     (case r of
        Inl e \<Rightarrow> Rejected e
      | Inr None \<Rightarrow> Fulfilled Undefined
      | Inr (Some m) \<Rightarrow> Fulfilled (Manager m))"

definition settle_acquisition :: "ref \<Rightarrow> services \<Rightarrow> world \<Rightarrow> world" where
  "settle_acquisition p sv w =
     (if p < length (promises w) then
        (case (state (promises w ! p), made_by (promises w ! p)) of
           (Pending, Acquisition sid) \<Rightarrow>
             (case createJupyterSessionManager (penv w) sv (sessions w ! sid) of
                (r, lg) \<Rightarrow>
                  w\<lparr>promises := (promises w)[p := (promises w ! p)\<lparr>state := settle_with r\<rparr>],
                    trace := trace w @ map Logged lg\<rparr>)
         | _ \<Rightarrow> w)
      else w)"

definition settle_plugins :: "ref \<Rightarrow> error + plugin \<Rightarrow> world \<Rightarrow> world" where
  "settle_plugins p r w =
     (if p < length (promises w) then
        (case (state (promises w ! p), made_by (promises w ! p)) of
           (Pending, PluginLoad sid) \<Rightarrow>
             w\<lparr>promises := (promises w)
                 [p := (promises w ! p)
                    \<lparr>state := (case r of Inl e \<Rightarrow> Rejected e
                                       | Inr pl \<Rightarrow> Fulfilled (Plugins pl))\<rparr>]\<rparr>
         | _ \<Rightarrow> w)
      else w)"

text \<open>
  Disposing a session manager emits its \<^verbatim>\<open>disposed\<close> signal; the handler connected in
  lines 262 to 265 then disposes the kernel manager and calls the \<^verbatim>\<open>dispose\<close> of the
  partial settings when they have one.
\<close>

definition manager_dispose :: "manager \<Rightarrow> effect list" where
  "manager_dispose m =
     ManagerDisposed m # KernelManagerDisposed m #
     (case partialServerSettings m of
        Some ss \<Rightarrow> if has_dispose ss then [ServerDisposed ss] else []
      | None \<Rightarrow> [])"

text \<open>
  The callback \<^verbatim>\<open>(manager) => manager?.dispose?.()\<close> that \<^verbatim>\<open>dispose\<close> leaves on the
  promise, by what the promise has settled with: a manager is disposed,
  \<^verbatim>\<open>undefined\<close> is skipped by the optional call, and a rejection reaches the promise
  that \<^verbatim>\<open>then\<close> returned, which nobody holds.
\<close>

definition then_dispose :: "promise_state \<Rightarrow> effect list" where
  "then_dispose ps =
     (case ps of
        Fulfilled (Manager m) \<Rightarrow> manager_dispose m
      | Fulfilled _ \<Rightarrow> []
      | Rejected e \<Rightarrow> [Unhandled e]
      | Pending \<Rightarrow> [])"

text \<open>
  Running a reaction on a settled promise: the callback of \<^verbatim>\<open>dispose\<close>, or the
  continuation of \<^verbatim>\<open>loadPlugins\<close>, which assigns the registry.
\<close>

fun run_reaction :: "world \<Rightarrow> ref \<times> reaction \<Rightarrow> world" where
  "run_reaction w (p, DisposeManager) =
     w\<lparr>trace := trace w @ then_dispose (state (promises w ! p))\<rparr>"
| "run_reaction w (p, AssignPlugins sid) =
     (case state (promises w ! p) of
        Fulfilled (Plugins pl) \<Rightarrow>
          w\<lparr>sessions := (sessions w)[sid := (sessions w ! sid)\<lparr>plugins := Some pl\<rparr>]\<rparr>
      | _ \<Rightarrow> w)"

definition is_settled :: "world \<Rightarrow> ref \<times> reaction \<Rightarrow> bool" where
  "is_settled w pr \<longleftrightarrow> state (promises w ! fst pr) \<noteq> Pending"

text \<open>
  The job queue: the reactions whose promise has settled run, in the order in which they
  were left; the others stay.
\<close>

definition run_jobs :: "world \<Rightarrow> world" where
  "run_jobs w =
     foldl run_reaction
       (w\<lparr>reactions := filter (\<lambda>pr. \<not> is_settled w pr) (reactions w)\<rparr>)
       (filter (is_settled w) (reactions w))"

text \<open>
  One step of the event loop: a call of a method of the session \<open>sid\<close> (only sessions
  that exist can be called), a promise settling, or the job queue running.  Calls made
  while a promise is pending are the concurrent callers; any interleaving is a list of
  steps.
\<close>

datatype step =
    CallJupyterSessionManager ref
  | CallLoadPlugins ref
  | CallDispose ref
  | CallClone ref "error + store_state"
  | SettleAcquisition ref services
  | SettlePlugins ref "error + plugin"
  | RunJobs

fun exec :: "world \<Rightarrow> step \<Rightarrow> world" where
  "exec w (CallJupyterSessionManager sid) =
     (if sid < length (sessions w) then snd (jupyterSessionManager sid w) else w)"
| "exec w (CallLoadPlugins sid) =
     (if sid < length (sessions w) then snd (loadPlugins sid w) else w)"
| "exec w (CallDispose sid) =
     (if sid < length (sessions w) then dispose sid w else w)"
| "exec w (CallClone sid reloaded) =
     (if sid < length (sessions w) then snd (clone sid reloaded w) else w)"
| "exec w (SettleAcquisition p sv) = settle_acquisition p sv w"
| "exec w (SettlePlugins p r) = settle_plugins p r w"
| "exec w RunJobs = run_jobs w"

definition run :: "step list \<Rightarrow> world \<Rightarrow> world" where
  "run steps w = foldl exec w steps"

definition teardowns :: "world \<Rightarrow> nat" where
  "teardowns w = length (filter (\<lambda>e. case e of ManagerDisposed m \<Rightarrow> True | _ \<Rightarrow> False) (trace w))"

section \<open>Warnings of a session hierarchy\<close>

text \<open>
  Line 200 serialises a warning with \<^verbatim>\<open>JSON.stringify(Object.entries(warning).sort())\<close>.
  The three library functions are modelled on the values of \<open>jsval\<close> and on strings of
  ASCII characters.  \<open>digits\<close> writes a natural number in decimal.
\<close>

definition digit_char :: "nat \<Rightarrow> char" where
  "digit_char n = ''0123456789abcdef'' ! n"

fun digits :: "nat \<Rightarrow> string" where
  "digits n = (if n < 10 then [digit_char n] else digits (n div 10) @ [digit_char (n mod 10)])"

declare digits.simps [simp del]

definition Number_toString :: "int \<Rightarrow> string" where
  "Number_toString i = (if i < 0 then ''-'' @ digits (nat (- i)) else digits (nat i))"

text \<open>\<^verbatim>\<open>Array.prototype.join\<close> on strings.\<close>

definition join :: "string \<Rightarrow> string list \<Rightarrow> string" where
  "join sep xs = (case xs of [] \<Rightarrow> [] | x # ys \<Rightarrow> foldl (\<lambda>acc y. acc @ sep @ y) x ys)"

text \<open>
  \<^verbatim>\<open>JSON.stringify\<close>: a string is quoted, with the quote, the backslash and the control
  characters escaped; an object lists its members in insertion order.
\<close>

definition escape_char :: "char \<Rightarrow> string" where
  "escape_char c =
     (if c = CHR 0x22 then [CHR 0x5C, CHR 0x22]
      else if c = CHR 0x5C then [CHR 0x5C, CHR 0x5C]
      else if c = CHR 0x08 then [CHR 0x5C, CHR ''b'']
      else if c = CHR 0x09 then [CHR 0x5C, CHR ''t'']
      else if c = CHR 0x0A then [CHR 0x5C, CHR ''n'']
      else if c = CHR 0x0C then [CHR 0x5C, CHR ''f'']
      else if c = CHR 0x0D then [CHR 0x5C, CHR ''r'']
      else if (of_char c :: nat) < 32
      then [CHR 0x5C, CHR ''u'', CHR ''0'', CHR ''0'',
            digit_char ((of_char c :: nat) div 16), digit_char ((of_char c :: nat) mod 16)]
      else [c])"

definition quote :: "string \<Rightarrow> string" where
  "quote s = [CHR 0x22] @ concat (map escape_char s) @ [CHR 0x22]"

fun JSON_stringify :: "jsval \<Rightarrow> string"
and stringify_members :: "(string \<times> jsval) list \<Rightarrow> string list" where
  "JSON_stringify JNull = ''null''"
| "JSON_stringify (JStr s) = quote s"
| "JSON_stringify (JNum i) = Number_toString i"
| "JSON_stringify (JObj ms) = ''{'' @ join '','' (stringify_members ms) @ ''}''"
| "stringify_members [] = []"
| "stringify_members (kv # ms) =
     (quote (fst kv) @ '':'' @ JSON_stringify (snd kv)) # stringify_members ms"

text \<open>
  \<^verbatim>\<open>sort()\<close> without a comparison function orders the elements by their string forms,
  compared by code units, and keeps the order of elements whose string forms are equal.
  The elements are the pairs \<^verbatim>\<open>[key, value]\<close>; the string form of a pair joins the key and
  the string form of the value with a comma, where \<^verbatim>\<open>null\<close> gives the empty string and
  an object \<^verbatim>\<open>[object Object]\<close>.
\<close>

definition element_toString :: "jsval \<Rightarrow> string" where
  "element_toString v =
     (case v of
        JNull \<Rightarrow> []
      | JStr s \<Rightarrow> s
      | JNum i \<Rightarrow> Number_toString i
      | JObj ms \<Rightarrow> ''[object Object]'')"

definition entry_toString :: "string \<times> jsval \<Rightarrow> string" where
  "entry_toString kv = fst kv @ '','' @ element_toString (snd kv)"

definition sort_entries :: "(string \<times> jsval) list \<Rightarrow> (string \<times> jsval) list" where
  "sort_entries es = sort_key entry_toString es"

text \<open>\<^verbatim>\<open>JSON.stringify\<close> of the array of pairs.\<close>

definition stringify_entries :: "(string \<times> jsval) list \<Rightarrow> string" where
  "stringify_entries es =
     ''['' @ join '','' (map (\<lambda>kv. ''['' @ quote (fst kv) @ '','' @ JSON_stringify (snd kv) @ '']'') es)
     @ '']''"

text \<open>Line 200: the serialisation \<^verbatim>\<open>stringWarning\<close> of a warning.\<close>

definition stringWarning_of :: "warning \<Rightarrow> string" where
  "stringWarning_of warning = stringify_entries (sort_entries warning)"

text \<open>
  Modelled from the spec: the selector \<^verbatim>\<open>selectFileWarningsByRule\<close> of the store is not
  among the sources.  It reads the session's current warnings, in their native order,
  filtered to the rule id; a warning carries its rule identifier in the field
  \<^verbatim>\<open>ruleId\<close>.
\<close>

definition selectFileWarningsByRule :: "store_state \<Rightarrow> string \<Rightarrow> warning list" where
  "selectFileWarningsByRule st ruleId =
     filter (\<lambda>w. map_of w ''ruleId'' = Some (JStr ruleId)) (fileWarnings st)"

text \<open>
  \<^verbatim>\<open>getAllWarnings\<close>, lines 194 to 208.  The two arrays \<^verbatim>\<open>stringWarnings\<close> and \<^verbatim>\<open>warnings\<close> are
  the state of the two nested \<^verbatim>\<open>forEach\<close> loops: the inner one visits the warnings of a
  session, the outer one the sessions \<^verbatim>\<open>[this, ...this._clones]\<close>.
\<close>

definition visit_warning ::
  "string list \<times> warning list \<Rightarrow> warning \<Rightarrow> string list \<times> warning list" where
  "visit_warning acc warning =
     (case acc of
        (stringWarnings, warnings) \<Rightarrow>
          (let stringWarning = stringWarning_of warning
           in if stringWarning \<notin> set stringWarnings
              then (stringWarnings @ [stringWarning], warnings @ [warning])
              else (stringWarnings, warnings)))"

definition visit_session ::
  "world \<Rightarrow> string \<Rightarrow> string list \<times> warning list \<Rightarrow> ref \<Rightarrow> string list \<times> warning list" where
  "visit_session w ruleId acc c =
     foldl visit_warning acc (selectFileWarningsByRule (store (sessions w ! c)) ruleId)"

definition getAllWarnings :: "world \<Rightarrow> ref \<Rightarrow> string \<Rightarrow> warning list" where
  "getAllWarnings w sid ruleId =
     snd (foldl (visit_session w ruleId) ([], []) (sid # clones (sessions w ! sid)))"

text \<open>
  All warnings the loops visit, in the order of the visit: those of the origin, then
  those of each clone in the order of \<^verbatim>\<open>_clones\<close>, each session's in its own order.
\<close>

definition visited_warnings :: "world \<Rightarrow> ref \<Rightarrow> string \<Rightarrow> warning list" where
  "visited_warnings w sid ruleId =
     concat (map (\<lambda>c. selectFileWarningsByRule (store (sessions w ! c)) ruleId)
               (sid # clones (sessions w ! sid)))"

text \<open>
  Deduplication as the specification words it, for a canonical form \<open>canon\<close>: the result
  keeps the element at position \<open>i\<close> exactly when no element before it has the same
  canonical form (the first occurrence wins), in the order of the input.
\<close>

definition first_occurrences :: "('a \<Rightarrow> 'k) \<Rightarrow> 'a list \<Rightarrow> 'a list" where
  "first_occurrences canon xs =
     map (\<lambda>i. xs ! i) (filter (\<lambda>i. canon (xs ! i) \<notin> canon ` set (take i xs)) [0..<length xs])"

section \<open>Inputs of the worked examples\<close>

text \<open>A session with a proxy, two URLs and the options of a caller.\<close>

definition proxied_session :: session where
  "proxied_session =
     \<lparr>logger = 0, doiLimiter = 0, proxyAgent = Some ''http://proxy.example:3128'',
      store = \<lparr>currentSitePath = None, currentProjectPath = None, fileWarnings = []\<rparr>,
      jupyterSessionManagerPromise = None, pluginPromise = None, plugins = None,
      clones = []\<rparr>"

definition local_url :: URL where
  "local_url = \<lparr>href = ''http://localhost:8888/api'', hostname = ''localhost''\<rparr>"

definition remote_url :: URL where
  "remote_url = \<lparr>href = ''https://api.mystmd.org/x'', hostname = ''api.mystmd.org''\<rparr>"

definition caller_init :: request_init where
  "caller_init = [''agent'' \<mapsto> Agent ''own-agent'', ''method'' \<mapsto> Plain ''POST'']"

definition plain_init :: request_init where
  "plain_init = [''method'' \<mapsto> Plain ''GET'']"

text \<open>
  The environment without and with a repository to build, services on a machine with no
  server running and no way to launch one, events of the build stream, and a session
  as the constructor leaves it.
\<close>

definition plain_env :: process_env where
  "plain_env = \<lparr>BINDER_REPO_SPEC = None, JUPYTER_BASE_URL = None, JUPYTER_TOKEN = None,
                HTTPS_PROXY = None\<rparr>"

definition binder_env :: process_env where
  "binder_env = plain_env\<lparr>BINDER_REPO_SPEC := Some ''gh/executablebooks/thebe-binder-base/HEAD''\<rparr>"

definition quiet_services :: services where
  "quiet_services =
     \<lparr>build_events = [], delivered_after_close = 0, existing_server = Inr None,
      launched_server = Inl (Error ''spawn jupyter ENOENT''), connection_error = None,
      resolve_path = (\<lambda>p. p)\<rparr>"

definition phase_event :: "string \<Rightarrow> string \<Rightarrow> build_event" where
  "phase_event ph msg = \<lparr>phase = ph, message = msg, url = None, token = None\<rparr>"

definition ready_event :: "string \<Rightarrow> string \<Rightarrow> build_event" where
  "ready_event u t = \<lparr>phase = ''ready'', message = ''server running'', url = Some u, token = Some t\<rparr>"

definition fresh_session :: session where
  "fresh_session = new_Session plain_env 0 0"

definition example_stream :: "stream_item list" where
  "example_stream =
     [Yield (phase_event ''waiting'' ''queued''),
      Yield (phase_event ''building'' '' step 1/3 ''),
      Yield (ready_event ''https://hub.example/user/x/'' ''abc''),
      Yield (phase_event ''failed'' ''late'')]"

definition failing_stream :: "stream_item list" where
  "failing_stream =
     [Yield (phase_event ''waiting'' ''queued''), Yield (phase_event ''failed'' ''no such ref'')]"

definition broken_stream :: "stream_item list" where
  "broken_stream =
     [Yield (phase_event ''building'' ''step 1/3''), Throw (Error ''socket hang up'')]"

definition two_ready_stream :: "stream_item list" where
  "two_ready_stream =
     [Yield (ready_event ''https://hub.example/user/a/'' ''ta''),
      Yield (ready_event ''https://hub.example/user/b/'' ''tb'')]"

text \<open>
  A world with one session and nothing started, and the runs the examples follow.
\<close>

definition one_session_world :: world where
  "one_session_world =
     \<lparr>penv = plain_env, sessions = [fresh_session], promises = [], reactions = [],
      trace = []\<rparr>"

definition concurrent_calls :: "step list" where
  "concurrent_calls =
     [CallJupyterSessionManager 0, CallLoadPlugins 0, CallJupyterSessionManager 0,
      SettleAcquisition 0 quiet_services, CallLoadPlugins 0, RunJobs,
      CallJupyterSessionManager 0]"

definition reacquire_steps :: "step list" where
  "reacquire_steps =
     [CallJupyterSessionManager 0, SettleAcquisition 0 quiet_services, CallDispose 0,
      CallJupyterSessionManager 0]"

definition clone_before_acquire :: "step list" where
  "clone_before_acquire =
     [CallClone 0 (Inr initial_store), CallJupyterSessionManager 0,
      SettleAcquisition 0 quiet_services, CallJupyterSessionManager 1]"

definition resolved_world :: world where
  "resolved_world =
     run [CallJupyterSessionManager 0, SettleAcquisition 0 quiet_services] one_session_world"

definition site_store :: store_state where
  "site_store = \<lparr>currentSitePath = Some ''/work/site'', currentProjectPath = Some ''/work/site'',
                 fileWarnings = []\<rparr>"

definition spawning_services :: services where
  "spawning_services =
     quiet_services\<lparr>launched_server :=
        Inr \<lparr>baseUrl = Some ''http://localhost:8888/'', token = Some ''s3cr3t'',
             appUrl = Some ''http://localhost:8888/'', has_dispose = True\<rparr>\<rparr>"

definition owned_world :: world where
  "owned_world =
     run [CallJupyterSessionManager 0, SettleAcquisition 0 spawning_services] one_session_world"

text \<open>
  Warnings of one rule: a warning, the same warning with its fields inserted in another
  order, and a different one; a hierarchy of an origin and two clones that report them.
\<close>

definition link_warning :: warning where
  "link_warning =
     [(''file'', JStr ''index.md''), (''message'', JStr ''Link for \"x\" did not resolve.''),
      (''kind'', JStr ''warn''), (''ruleId'', JStr ''link-resolves''),
      (''position'', JObj [(''start'', JObj [(''line'', JNum 3), (''column'', JNum 1)])]),
      (''note'', JNull)]"

definition link_warning_reordered :: warning where
  "link_warning_reordered =
     [(''ruleId'', JStr ''link-resolves''), (''kind'', JStr ''warn''),
      (''message'', JStr ''Link for \"x\" did not resolve.''), (''file'', JStr ''index.md''),
      (''note'', JNull),
      (''position'', JObj [(''start'', JObj [(''line'', JNum 3), (''column'', JNum 1)])])]"

definition other_warning :: warning where
  "other_warning =
     [(''file'', JStr ''intro.md''), (''message'', JStr ''Link for \"y\" did not resolve.''),
      (''kind'', JStr ''warn''), (''ruleId'', JStr ''link-resolves'')]"

definition session_with :: "warning list \<Rightarrow> ref list \<Rightarrow> session" where
  "session_with ws cs =
     fresh_session\<lparr>store := initial_store\<lparr>fileWarnings := ws\<rparr>, clones := cs\<rparr>"

definition hierarchy_world :: world where
  "hierarchy_world =
     \<lparr>penv = plain_env,
      sessions = [session_with [link_warning] [1, 2],
                  session_with [link_warning_reordered] [],
                  session_with [link_warning, other_warning] []],
      promises = [], reactions = [], trace = []\<rparr>"

section \<open>Properties of \<^verbatim>\<open>fetch\<close>\<close>

lemma set_LOCALHOSTS: "set LOCALHOSTS = {''localhost'', ''127.0.0.1'', ''::1''}"
  by (simp add: LOCALHOSTS_def)

lemma fetch_prepare_attach:
  "proxyAgent s = Some a \<Longrightarrow> hostname u \<notin> set LOCALHOSTS \<Longrightarrow>
   fetch_prepare s u init =
     (Some ([''agent'' \<mapsto> Agent a] ++ (case init of None \<Rightarrow> Map.empty | Some i \<Rightarrow> i)),
      [Debug (''Fetching: '' @ href u), Debug (''Using HTTPS proxy: '' @ a)])"
  by (simp add: fetch_prepare_def Let_def)

lemma fetch_prepare_pass:
  "proxyAgent s = None \<or> hostname u \<in> set LOCALHOSTS \<Longrightarrow>
   fetch_prepare s u init = (init, [Debug (''Fetching: '' @ href u)])"
  by (auto simp: fetch_prepare_def Let_def split: option.splits)

lemma passed_init_step: "passed_init (fetch_step u t ev) = passed_init t"
  by (cases "(u, t, ev)" rule: fetch_step.cases) auto

lemma passed_init_foldl: "passed_init (foldl (fetch_step u) t evs) = passed_init t"
  by (induction evs arbitrary: t) (simp_all add: passed_init_step)

lemma passed_init_fetch: "passed_init (fetch s u init evs) = fst (fetch_prepare s u init)"
  by (simp add: fetch_def passed_init_foldl fetch_start_def split: prod.splits)

text \<open>
  Claim C8.  \<^verbatim>\<open>fetch\<close> attaches the proxy agent to the request options exactly when a proxy
  is configured and the host name of the URL is none of \<^verbatim>\<open>localhost\<close>, \<^verbatim>\<open>127.0.0.1\<close>,
  \<^verbatim>\<open>::1\<close>.  Attaching is the spread \<^verbatim>\<open>{ agent: this.proxyAgent, ...init }\<close> together with
  the debug line that reports the proxy: when the condition holds, the options handed to
  the network call are that spread; otherwise they are the caller's, untouched, also for
  \<^verbatim>\<open>localhost\<close> with a proxy configured.  The debug line is written exactly under the
  condition, and for a caller that passes no \<^verbatim>\<open>agent\<close> of its own the key \<^verbatim>\<open>agent\<close> of the
  options holds the proxy agent exactly under the condition.
\<close>

theorem C8_proxy_attached_iff:
  "(proxyAgent s = Some a \<and> hostname u \<notin> {''localhost'', ''127.0.0.1'', ''::1''} \<longrightarrow>
      fetch_prepare s u init =
        (Some ([''agent'' \<mapsto> Agent a] ++ (case init of None \<Rightarrow> Map.empty | Some i \<Rightarrow> i)),
         [Debug (''Fetching: '' @ href u), Debug (''Using HTTPS proxy: '' @ a)]))
   \<and> (proxyAgent s = None \<or> hostname u \<in> {''localhost'', ''127.0.0.1'', ''::1''} \<longrightarrow>
      fetch_prepare s u init = (init, [Debug (''Fetching: '' @ href u)]))
   \<and> (Debug (''Using HTTPS proxy: '' @ a) \<in> set (snd (fetch_prepare s u init)) \<longleftrightarrow>
      proxyAgent s = Some a \<and> hostname u \<notin> {''localhost'', ''127.0.0.1'', ''::1''})
   \<and> ((case init of None \<Rightarrow> True | Some i \<Rightarrow> i ''agent'' = None) \<longrightarrow>
      ((\<exists>m. fst (fetch_prepare s u init) = Some m \<and> m ''agent'' = Some (Agent a)) \<longleftrightarrow>
       proxyAgent s = Some a \<and> hostname u \<notin> {''localhost'', ''127.0.0.1'', ''::1''}))"
proof -
  let ?local = "hostname u \<in> {''localhost'', ''127.0.0.1'', ''::1''}"
  have mem: "hostname u \<in> set LOCALHOSTS \<longleftrightarrow> ?local"
    by (simp add: set_LOCALHOSTS)
  show ?thesis
  proof (cases "proxyAgent s")
    case None
    then show ?thesis
      by (auto simp: fetch_prepare_pass split: option.splits)
  next
    case (Some b)
    show ?thesis
    proof (cases ?local)
      case True
      with Some mem have "fetch_prepare s u init = (init, [Debug (''Fetching: '' @ href u)])"
        by (simp add: fetch_prepare_pass)
      with Some True show ?thesis
        by (auto split: option.splits)
    next
      case False
      with Some mem have "fetch_prepare s u init =
        (Some ([''agent'' \<mapsto> Agent b] ++ (case init of None \<Rightarrow> Map.empty | Some i \<Rightarrow> i)),
         [Debug (''Fetching: '' @ href u), Debug (''Using HTTPS proxy: '' @ b)])"
        by (simp add: fetch_prepare_attach)
      with Some False show ?thesis
        by (auto simp: map_add_def split: option.splits)
    qed
  qed
qed

text \<open>
  Claim C8 at two requests of a session with a proxy: one to \<^verbatim>\<open>localhost\<close>, whose options
  are passed through, and one to a remote host, which gets the agent.
\<close>

theorem C8_witness:
  "fetch_prepare proxied_session local_url (Some caller_init) =
     (Some caller_init, [Debug ''Fetching: http://localhost:8888/api''])
   \<and> fetch_prepare proxied_session remote_url None =
     (Some [''agent'' \<mapsto> Agent ''http://proxy.example:3128''],
      [Debug ''Fetching: https://api.mystmd.org/x'',
       Debug ''Using HTTPS proxy: http://proxy.example:3128''])"
  using C8_proxy_attached_iff [of proxied_session "''http://proxy.example:3128''" local_url "Some caller_init"]
        C8_proxy_attached_iff [of proxied_session "''http://proxy.example:3128''" remote_url None]
  by (simp add: proxied_session_def local_url_def remote_url_def)

text \<open>
  Claim C10.  When the proxy agent is attached, every key the caller supplied in \<^verbatim>\<open>init\<close>
  reaches the network call with the caller's value, the only key added is \<^verbatim>\<open>agent\<close>, and
  an \<^verbatim>\<open>agent\<close> supplied by the caller wins over the session's proxy agent (it is one of
  the caller's keys); the proxy agent is what \<^verbatim>\<open>agent\<close> holds only when the caller
  supplied none.  Nothing that happens after the call has started changes the options.
\<close>

theorem C10_caller_options_preserved:
  assumes "proxyAgent s = Some a"
      and "hostname u \<notin> set LOCALHOSTS"
  shows "(\<exists>m. passed_init (fetch s u (Some i) evs) = Some m
            \<and> (\<forall>k v. i k = Some v \<longrightarrow> m k = Some v)
            \<and> dom m = insert ''agent'' (dom i)
            \<and> (i ''agent'' = None \<longrightarrow> m ''agent'' = Some (Agent a)))
         \<and> passed_init (fetch s u None evs) = Some [''agent'' \<mapsto> Agent a]"
proof -
  let ?m = "[''agent'' \<mapsto> Agent a] ++ i"
  have p: "passed_init (fetch s u (Some i) evs) = Some ?m"
    using assms by (simp add: passed_init_fetch fetch_prepare_attach)
  have keep: "\<forall>k v. i k = Some v \<longrightarrow> ?m k = Some v"
    by (simp add: map_add_Some_iff)
  have d: "dom ?m = insert ''agent'' (dom i)"
    by (simp add: Un_commute)
  have ag: "i ''agent'' = None \<longrightarrow> ?m ''agent'' = Some (Agent a)"
    by (simp add: map_add_def)
  have n: "passed_init (fetch s u None evs) = Some [''agent'' \<mapsto> Agent a]"
    using assms by (simp add: passed_init_fetch fetch_prepare_attach)
  have "\<exists>m. passed_init (fetch s u (Some i) evs) = Some m
            \<and> (\<forall>k v. i k = Some v \<longrightarrow> m k = Some v)
            \<and> dom m = insert ''agent'' (dom i)
            \<and> (i ''agent'' = None \<longrightarrow> m ''agent'' = Some (Agent a))"
  proof (rule exI [of _ ?m], intro conjI)
    show "passed_init (fetch s u (Some i) evs) = Some ?m" by (rule p)
    show "\<forall>k v. i k = Some v \<longrightarrow> ?m k = Some v" by (rule keep)
    show "dom ?m = insert ''agent'' (dom i)" by (rule d)
    show "i ''agent'' = None \<longrightarrow> ?m ''agent'' = Some (Agent a)" by (rule ag)
  qed
  then show ?thesis using n by (rule conjI)
qed

text \<open>
  Claim C10 at a caller that passes its own agent and a method to a remote host, and at
  a caller that passes a method only.
\<close>

theorem C10_witness:
  "(\<exists>m. passed_init (fetch proxied_session remote_url (Some caller_init) [TimerFires]) = Some m
      \<and> m ''method'' = Some (Plain ''POST'') \<and> m ''agent'' = Some (Agent ''own-agent'')
      \<and> dom m = {''agent'', ''method''})
   \<and> (\<exists>m. passed_init (fetch proxied_session remote_url (Some plain_init) []) = Some m
      \<and> m ''method'' = Some (Plain ''GET'')
      \<and> m ''agent'' = Some (Agent ''http://proxy.example:3128''))"
proof -
  have a: "proxyAgent proxied_session = Some ''http://proxy.example:3128''"
    by (simp add: proxied_session_def)
  have b: "hostname remote_url \<notin> set LOCALHOSTS"
    by (simp add: remote_url_def LOCALHOSTS_def)
  note C10_caller_options_preserved [OF a b, of caller_init "[TimerFires]", THEN conjunct1]
  then obtain m where m: "passed_init (fetch proxied_session remote_url (Some caller_init) [TimerFires]) = Some m
            \<and> (\<forall>k v. caller_init k = Some v \<longrightarrow> m k = Some v)
            \<and> dom m = insert ''agent'' (dom caller_init)
            \<and> (caller_init ''agent'' = None \<longrightarrow> m ''agent'' = Some (Agent ''http://proxy.example:3128''))" ..
  have m1: "passed_init (fetch proxied_session remote_url (Some caller_init) [TimerFires]) = Some m"
    using m by (rule conjunct1)
  have m2: "\<forall>k v. caller_init k = Some v \<longrightarrow> m k = Some v"
    using m by (elim conjE)
  have m3: "dom m = insert ''agent'' (dom caller_init)"
    using m by (elim conjE)
  have c1: "caller_init ''method'' = Some (Plain ''POST'')"
    by (simp add: caller_init_def)
  have c2: "caller_init ''agent'' = Some (Agent ''own-agent'')"
    by (simp add: caller_init_def)
  have c3: "dom caller_init = {''agent'', ''method''}"
    by (simp add: caller_init_def insert_commute)
  have r1: "m ''method'' = Some (Plain ''POST'')"
    using m2 [rule_format, OF c1] .
  have r2: "m ''agent'' = Some (Agent ''own-agent'')"
    using m2 [rule_format, OF c2] .
  have r3: "dom m = {''agent'', ''method''}"
    using m3 c3 by simp
  have first: "\<exists>m. passed_init (fetch proxied_session remote_url (Some caller_init) [TimerFires]) = Some m
      \<and> m ''method'' = Some (Plain ''POST'') \<and> m ''agent'' = Some (Agent ''own-agent'')
      \<and> dom m = {''agent'', ''method''}"
    by (rule exI [of _ m], intro conjI) (rule m1 r1 r2 r3)+
  note C10_caller_options_preserved [OF a b, of plain_init "[]", THEN conjunct1]
  then obtain n where n: "passed_init (fetch proxied_session remote_url (Some plain_init) []) = Some n
            \<and> (\<forall>k v. plain_init k = Some v \<longrightarrow> n k = Some v)
            \<and> dom n = insert ''agent'' (dom plain_init)
            \<and> (plain_init ''agent'' = None \<longrightarrow> n ''agent'' = Some (Agent ''http://proxy.example:3128''))" ..
  have n1: "passed_init (fetch proxied_session remote_url (Some plain_init) []) = Some n"
    using n by (rule conjunct1)
  have n2: "\<forall>k v. plain_init k = Some v \<longrightarrow> n k = Some v"
    using n by (elim conjE)
  have n4: "plain_init ''agent'' = None \<longrightarrow> n ''agent'' = Some (Agent ''http://proxy.example:3128'')"
    using n by (elim conjE)
  have d1: "plain_init ''method'' = Some (Plain ''GET'')"
    by (simp add: plain_init_def)
  have d2: "plain_init ''agent'' = None"
    by (simp add: plain_init_def)
  have q1: "n ''method'' = Some (Plain ''GET'')"
    using n2 [rule_format, OF d1] .
  have q2: "n ''agent'' = Some (Agent ''http://proxy.example:3128'')"
    using n4 [rule_format, OF d2] .
  have second: "\<exists>m. passed_init (fetch proxied_session remote_url (Some plain_init) []) = Some m
      \<and> m ''method'' = Some (Plain ''GET'')
      \<and> m ''agent'' = Some (Agent ''http://proxy.example:3128'')"
    by (rule exI [of _ n], intro conjI) (rule n1 q1 q2)+
  from first second show ?thesis by (rule conjI)
qed

text \<open>
  Claim C9 says that once the network call has completed, with success or failure, the
  stall timer never writes its diagnostic.  The code sets \<^verbatim>\<open>logData.done\<close> on the line
  after the \<^verbatim>\<open>await\<close>, which a rejected call never reaches.  Below, the call to
  \<^verbatim>\<open>localhost\<close> fails with a refused connection, the promise of \<^verbatim>\<open>fetch\<close> rejects, and
  the timer that fires afterwards finds the flag unset and writes the diagnostic.
\<close>

theorem C9_diagnostic_after_failed_call:
  "fetch proxied_session local_url None
      [NetworkSettles (Inl (Error ''ECONNREFUSED'')), TimerFires] =
     \<lparr>passed_init = None, logData_done = False,
      fetch_log = [Debug ''Fetching: http://localhost:8888/api'',
                   Info (hourglass @ '' Waiting for response from http://localhost:8888/api'')],
      settled = Some (Inl (Error ''ECONNREFUSED'')), network_calls = 1\<rparr>"
  by (simp add: fetch_def fetch_start_def fetch_prepare_def proxied_session_def local_url_def
      LOCALHOSTS_def)

text \<open>
  On the other path the flag does its work: after a response has arrived the timer is
  silent.  The timer itself never touches the outcome of the call and never starts a
  second one.
\<close>

lemma fetch_success_then_timer_silent:
  "fetch_log (fetch s u init [NetworkSettles (Inr r), TimerFires]) = snd (fetch_prepare s u init)"
  by (simp add: fetch_def fetch_start_def split: prod.splits)

lemma timer_keeps_call: 
  "settled (fetch_step u t TimerFires) = settled t \<and> network_calls (fetch_step u t ev) = network_calls t"
  by (cases "(u, t, ev)" rule: fetch_step.cases) auto

section \<open>Properties of the acquisition\<close>

lemma consume_other:
  "\<forall>x \<in> set pre. phase x \<noteq> ''ready'' \<and> phase x \<noteq> ''failed'' \<Longrightarrow>
   consume_events k (map Yield pre @ rest) found lg =
   consume_events k rest found (lg @ map console_line pre)"
  by (induction pre arbitrary: lg) simp_all

lemma consume_failed:
  assumes "\<forall>x \<in> set pre. phase x \<noteq> ''ready'' \<and> phase x \<noteq> ''failed''"
      and "phase d = ''failed''"
  shows "consume_events k (map Yield pre @ Yield d # rest) found lg =
         (Inl (Error ''Trying to build the repository failed''),
          lg @ map console_line (pre @ [d]))"
  using assms by (simp add: consume_other)

lemma consume_ready:
  assumes "\<forall>x \<in> set pre. phase x \<noteq> ''ready'' \<and> phase x \<noteq> ''failed''"
      and "phase d = ''ready''"
  shows "consume_events k (map Yield pre @ Yield d # rest) found lg =
         consume_events k (take k rest) (Some (settings_of_event d))
           (lg @ map console_line (pre @ [d]))"
  using assms by (simp add: consume_other settings_of_event_def)

lemma consume_throw:
  assumes "\<forall>x \<in> set pre. phase x \<noteq> ''ready'' \<and> phase x \<noteq> ''failed''"
  shows "consume_events k (map Yield pre @ Throw e # rest) found lg =
         (Inl e, lg @ map console_line pre)"
  using assms by (simp add: consume_other)

lemma create_of_settings_error:
  "find_settings pe sv s = (Inl e, lg) \<Longrightarrow>
   createJupyterSessionManager pe sv s =
     (Inr None, lg @ [LogError ''Unable to instantiate connection to Jupyter Server'' e])"
  by (simp add: createJupyterSessionManager_def try_acquire_def)

lemma create_of_settings_found:
  "find_settings pe sv s = (Inr partial, lg) \<Longrightarrow> connection_error sv = None \<Longrightarrow>
   createJupyterSessionManager pe sv s = (Inr (Some \<lparr>partialServerSettings = partial\<rparr>), lg)"
  by (simp add: createJupyterSessionManager_def try_acquire_def)

lemma create_of_connection_error:
  "find_settings pe sv s = (Inr partial, lg) \<Longrightarrow> connection_error sv = Some e \<Longrightarrow>
   createJupyterSessionManager pe sv s =
     (Inr None, lg @ [LogError ''Unable to instantiate connection to Jupyter Server'' e])"
  by (simp add: createJupyterSessionManager_def try_acquire_def)

lemma find_settings_binder:
  "BINDER_REPO_SPEC pe = Some spec \<Longrightarrow>
   find_settings pe sv s = consume_events (delivered_after_close sv) (build_events sv) None []"
  by (simp add: find_settings_def)

text \<open>
  The loop, phase by phase.  With the remote build selected, let the stream start with
  events of other phases and then hand out the event \<open>d\<close>.  The events before \<open>d\<close> are
  printed and nothing else.  When \<open>d\<close> is \<^verbatim>\<open>failed\<close> the \<^verbatim>\<open>throw\<close> ends the loop there: the
  acquisition resolves to \<^verbatim>\<open>undefined\<close> and the error is logged.  When \<open>d\<close> is \<^verbatim>\<open>ready\<close>
  the settings are taken from its URL and token and the stream is closed, and the result
  is that of the loop on the items the closed stream still hands out; only when it hands
  out none is the manager made from the URL and token of \<open>d\<close>.
\<close>

lemma remote_build_loop_by_phase:
  assumes "BINDER_REPO_SPEC pe = Some spec"
      and "build_events sv = map Yield pre @ Yield d # rest"
      and "\<forall>x \<in> set pre. phase x \<noteq> ''ready'' \<and> phase x \<noteq> ''failed''"
  shows "(phase d = ''failed'' \<longrightarrow>
            createJupyterSessionManager pe sv s =
              (Inr None,
               map console_line (pre @ [d]) @
               [LogError ''Unable to instantiate connection to Jupyter Server''
                  (Error ''Trying to build the repository failed'')]))
       \<and> (phase d = ''ready'' \<longrightarrow>
            find_settings pe sv s =
              consume_events (delivered_after_close sv) (take (delivered_after_close sv) rest)
                (Some (settings_of_event d)) (map console_line (pre @ [d])))
       \<and> (phase d = ''ready'' \<and> take (delivered_after_close sv) rest = []
            \<and> connection_error sv = None \<longrightarrow>
            createJupyterSessionManager pe sv s =
              (Inr (Some \<lparr>partialServerSettings = Some (settings_of_event d)\<rparr>),
               map console_line (pre @ [d])))"
proof (intro conjI impI)
  assume f: "phase d = ''failed''"
  have "find_settings pe sv s =
          (Inl (Error ''Trying to build the repository failed''), map console_line (pre @ [d]))"
    using consume_failed [OF assms(3) f, of "delivered_after_close sv" rest None "[]"]
    by (simp add: find_settings_binder [OF assms(1)] assms(2))
  then show "createJupyterSessionManager pe sv s =
              (Inr None,
               map console_line (pre @ [d]) @
               [LogError ''Unable to instantiate connection to Jupyter Server''
                  (Error ''Trying to build the repository failed'')])"
    by (rule create_of_settings_error)
next
  assume r: "phase d = ''ready''"
  show "find_settings pe sv s =
          consume_events (delivered_after_close sv) (take (delivered_after_close sv) rest)
            (Some (settings_of_event d)) (map console_line (pre @ [d]))"
    using consume_ready [OF assms(3) r, of "delivered_after_close sv" rest None "[]"]
    by (simp add: find_settings_binder [OF assms(1)] assms(2))
next
  assume a: "phase d = ''ready'' \<and> take (delivered_after_close sv) rest = []
            \<and> connection_error sv = None"
  then have r: "phase d = ''ready''" and t: "take (delivered_after_close sv) rest = []"
    and c: "connection_error sv = None"
    by simp_all
  have "find_settings pe sv s = (Inr (Some (settings_of_event d)), map console_line (pre @ [d]))"
    using consume_ready [OF assms(3) r, of "delivered_after_close sv" rest None "[]"] t
    by (simp add: find_settings_binder [OF assms(1)] assms(2))
  then show "createJupyterSessionManager pe sv s =
              (Inr (Some \<lparr>partialServerSettings = Some (settings_of_event d)\<rparr>),
               map console_line (pre @ [d]))"
    using c by (rule create_of_settings_found)
qed

text \<open>
  Two streams on an iterator that ends when it is closed: one that waits, builds and is
  ready (the \<^verbatim>\<open>failed\<close> event behind \<^verbatim>\<open>ready\<close> is never read), and one that waits and
  fails.
\<close>

lemma remote_build_loop_examples:
  "createJupyterSessionManager binder_env (quiet_services\<lparr>build_events := example_stream\<rparr>)
     fresh_session =
   (Inr (Some \<lparr>partialServerSettings =
           Some \<lparr>baseUrl = Some ''https://hub.example/user/x/'', token = Some ''abc'',
                 appUrl = None, has_dispose = False\<rparr>\<rparr>),
    [Console ''[waiting] queued'', Console ''[building] step 1/3'',
     Console ''[ready] server running''])
   \<and> createJupyterSessionManager binder_env (quiet_services\<lparr>build_events := failing_stream\<rparr>)
     fresh_session =
   (Inr None,
    [Console ''[waiting] queued'', Console ''[failed] no such ref'',
     LogError ''Unable to instantiate connection to Jupyter Server''
       (Error ''Trying to build the repository failed'')])"
proof -
  let ?sv = "quiet_services\<lparr>build_events := example_stream\<rparr>"
  let ?pre = "[phase_event ''waiting'' ''queued'', phase_event ''building'' '' step 1/3 '']"
  let ?d = "ready_event ''https://hub.example/user/x/'' ''abc''"
  have h1: "BINDER_REPO_SPEC binder_env = Some ''gh/executablebooks/thebe-binder-base/HEAD''"
    by (simp add: binder_env_def)
  have h2: "build_events ?sv = map Yield ?pre @ Yield ?d # [Yield (phase_event ''failed'' ''late'')]"
    by (simp add: example_stream_def)
  have h3: "\<forall>x \<in> set ?pre. phase x \<noteq> ''ready'' \<and> phase x \<noteq> ''failed''"
    by (simp add: phase_event_def)
  have h4: "phase ?d = ''ready'' \<and>
            take (delivered_after_close ?sv) [Yield (phase_event ''failed'' ''late'')] = [] \<and>
            connection_error ?sv = None"
    by (simp add: ready_event_def quiet_services_def)
  note remote_build_loop_by_phase [OF h1 h2 h3, of fresh_session, THEN conjunct2, THEN conjunct2,
      rule_format, OF h4]
  then have a: "createJupyterSessionManager binder_env ?sv fresh_session =
   (Inr (Some \<lparr>partialServerSettings =
           Some \<lparr>baseUrl = Some ''https://hub.example/user/x/'', token = Some ''abc'',
                 appUrl = None, has_dispose = False\<rparr>\<rparr>),
    [Console ''[waiting] queued'', Console ''[building] step 1/3'',
     Console ''[ready] server running''])"
    by (simp add: settings_of_event_def ready_event_def phase_event_def console_line_def
        trim_def is_space_def)
  let ?sf = "quiet_services\<lparr>build_events := failing_stream\<rparr>"
  let ?pf = "[phase_event ''waiting'' ''queued'']"
  let ?f = "phase_event ''failed'' ''no such ref''"
  have g2: "build_events ?sf = map Yield ?pf @ Yield ?f # []"
    by (simp add: failing_stream_def)
  have g3: "\<forall>x \<in> set ?pf. phase x \<noteq> ''ready'' \<and> phase x \<noteq> ''failed''"
    by (simp add: phase_event_def)
  have g4: "phase ?f = ''failed''"
    by (simp add: phase_event_def)
  note remote_build_loop_by_phase [OF h1 g2 g3, of fresh_session, THEN conjunct1, rule_format, OF g4]
  then have b: "createJupyterSessionManager binder_env ?sf fresh_session =
   (Inr None,
    [Console ''[waiting] queued'', Console ''[failed] no such ref'',
     LogError ''Unable to instantiate connection to Jupyter Server''
       (Error ''Trying to build the repository failed'')])"
    by (simp add: phase_event_def console_line_def trim_def is_space_def)
  from a b show ?thesis by (rule conjI)
qed

text \<open>
  Claim C2 says that the loop ends at the first \<^verbatim>\<open>ready\<close> event, that the manager is made
  from the URL and token of exactly that event, and that no further event is read.  The
  code closes the stream at \<^verbatim>\<open>ready\<close>, but its \<^verbatim>\<open>break\<close> leaves only the \<^verbatim>\<open>switch\<close>, while
  the case \<^verbatim>\<open>"failed"\<close> beside it does end the loop.  Below, the iterator had received one
  more item when it was closed and still hands it out.  On the stream that waits,
  builds, is ready and then fails, the \<^verbatim>\<open>failed\<close> event is read and printed after
  \<^verbatim>\<open>ready\<close>, and the acquisition resolves to \<^verbatim>\<open>undefined\<close> although the build was ready.
  On the stream of two \<^verbatim>\<open>ready\<close> events the second is read as well, and the manager is
  made from the URL and token of the second.
\<close>

theorem C2_ready_overtaken_by_queued_event:
  "createJupyterSessionManager binder_env
     (quiet_services\<lparr>build_events := example_stream, delivered_after_close := 1\<rparr>)
     fresh_session =
   (Inr None,
    [Console ''[waiting] queued'', Console ''[building] step 1/3'',
     Console ''[ready] server running'', Console ''[failed] late'',
     LogError ''Unable to instantiate connection to Jupyter Server''
       (Error ''Trying to build the repository failed'')])
   \<and> createJupyterSessionManager binder_env
     (quiet_services\<lparr>build_events := two_ready_stream, delivered_after_close := 1\<rparr>)
     fresh_session =
   (Inr (Some \<lparr>partialServerSettings =
           Some \<lparr>baseUrl = Some ''https://hub.example/user/b/'', token = Some ''tb'',
                 appUrl = None, has_dispose = False\<rparr>\<rparr>),
    [Console ''[ready] server running'', Console ''[ready] server running''])"
  by (simp add: createJupyterSessionManager_def try_acquire_def find_settings_def binder_env_def
      plain_env_def quiet_services_def example_stream_def two_ready_stream_def ready_event_def
      phase_event_def console_line_def settings_of_event_def trim_def is_space_def)

lemma create_never_rejects: "\<exists>r. fst (createJupyterSessionManager pe sv s) = Inr r"
  by (simp add: createJupyterSessionManager_def split: prod.splits sum.splits)

lemma find_settings_discovery_error:
  "BINDER_REPO_SPEC pe = None \<Longrightarrow> JUPYTER_BASE_URL pe = None \<Longrightarrow> existing_server sv = Inl e \<Longrightarrow>
   find_settings pe sv s = (Inl e, [])"
  by (simp add: find_settings_def)

lemma find_settings_launch_error:
  "BINDER_REPO_SPEC pe = None \<Longrightarrow> JUPYTER_BASE_URL pe = None \<Longrightarrow> existing_server sv = Inr None \<Longrightarrow>
   launched_server sv = Inl e \<Longrightarrow>
   find_settings pe sv s =
     (Inl e, [Debug (''Launching jupyter server on '' @ sourcePath (resolve_path sv) s)])"
  by (simp add: find_settings_def)

lemma settle_with_fulfils: "\<exists>v. settle_with (Inr x) = Fulfilled v"
  by (cases x) (simp_all add: settle_with_def)

lemma settle_acquisition_fulfils:
  assumes "p < length (promises w)"
      and "state (promises w ! p) = Pending"
      and "made_by (promises w ! p) = Acquisition sid"
  shows "\<exists>v. promise_state_of p (settle_acquisition p sv w) = Fulfilled v"
proof -
  obtain r lg where c: "createJupyterSessionManager (penv w) sv (sessions w ! sid) = (r, lg)"
    by (cases "createJupyterSessionManager (penv w) sv (sessions w ! sid)")
  from create_never_rejects [of "penv w" sv "sessions w ! sid"] c
  obtain x where r: "r = Inr x" by auto
  have "promise_state_of p (settle_acquisition p sv w) = settle_with (Inr x)"
    using assms c r by (simp add: settle_acquisition_def promise_state_of_def)
  with settle_with_fulfils [of x] show ?thesis by simp
qed

text \<open>
  Claim C3.  \<^verbatim>\<open>createJupyterSessionManager\<close> never rejects.  Whatever the body of the
  \<^verbatim>\<open>try\<close> throws is logged as an error and the result is \<^verbatim>\<open>undefined\<close>: so it is for an
  exception of the build stream, for a failed discovery, for a failed launch and for an
  exception while the connection settings and the managers are made.  So the promise
  that \<^verbatim>\<open>jupyterSessionManager\<close> hands to its callers is fulfilled when the acquisition
  settles, never rejected.
\<close>

theorem C3_acquisition_errors_are_caught:
  "(\<exists>r. fst (createJupyterSessionManager pe sv s) = Inr r)
   \<and> (try_acquire pe sv s = (Inl e, lg) \<longrightarrow>
        createJupyterSessionManager pe sv s =
          (Inr None, lg @ [LogError ''Unable to instantiate connection to Jupyter Server'' e]))
   \<and> (BINDER_REPO_SPEC pe = Some spec \<and> build_events sv = map Yield pre @ Throw e # rest
        \<and> (\<forall>x \<in> set pre. phase x \<noteq> ''ready'' \<and> phase x \<noteq> ''failed'') \<longrightarrow>
        createJupyterSessionManager pe sv s =
          (Inr None, map console_line pre @
             [LogError ''Unable to instantiate connection to Jupyter Server'' e]))
   \<and> (BINDER_REPO_SPEC pe = None \<and> JUPYTER_BASE_URL pe = None \<and> existing_server sv = Inl e \<longrightarrow>
        createJupyterSessionManager pe sv s =
          (Inr None, [LogError ''Unable to instantiate connection to Jupyter Server'' e]))
   \<and> (BINDER_REPO_SPEC pe = None \<and> JUPYTER_BASE_URL pe = None \<and> existing_server sv = Inr None
        \<and> launched_server sv = Inl e \<longrightarrow>
        createJupyterSessionManager pe sv s =
          (Inr None,
           [Debug (''Launching jupyter server on '' @ sourcePath (resolve_path sv) s),
            LogError ''Unable to instantiate connection to Jupyter Server'' e]))
   \<and> (find_settings pe sv s = (Inr partial, lg) \<and> connection_error sv = Some e \<longrightarrow>
        createJupyterSessionManager pe sv s =
          (Inr None, lg @ [LogError ''Unable to instantiate connection to Jupyter Server'' e]))
   \<and> (p < length (promises w) \<and> state (promises w ! p) = Pending
        \<and> made_by (promises w ! p) = Acquisition sid \<longrightarrow>
        (\<exists>v. promise_state_of p (settle_acquisition p sv w) = Fulfilled v))"
proof (intro conjI impI)
  show "\<exists>r. fst (createJupyterSessionManager pe sv s) = Inr r"
    by (rule create_never_rejects)
next
  assume "try_acquire pe sv s = (Inl e, lg)"
  then show "createJupyterSessionManager pe sv s =
          (Inr None, lg @ [LogError ''Unable to instantiate connection to Jupyter Server'' e])"
    by (simp add: createJupyterSessionManager_def)
next
  assume a: "BINDER_REPO_SPEC pe = Some spec \<and> build_events sv = map Yield pre @ Throw e # rest
        \<and> (\<forall>x \<in> set pre. phase x \<noteq> ''ready'' \<and> phase x \<noteq> ''failed'')"
  then have "find_settings pe sv s = (Inl e, map console_line pre)"
    using consume_throw [of pre "delivered_after_close sv" e rest None "[]"]
    by (simp add: find_settings_binder)
  then show "createJupyterSessionManager pe sv s =
          (Inr None, map console_line pre @
             [LogError ''Unable to instantiate connection to Jupyter Server'' e])"
    by (rule create_of_settings_error)
next
  assume "BINDER_REPO_SPEC pe = None \<and> JUPYTER_BASE_URL pe = None \<and> existing_server sv = Inl e"
  then have "find_settings pe sv s = (Inl e, [])"
    by (simp add: find_settings_discovery_error)
  then show "createJupyterSessionManager pe sv s =
          (Inr None, [LogError ''Unable to instantiate connection to Jupyter Server'' e])"
    using create_of_settings_error by fastforce
next
  assume "BINDER_REPO_SPEC pe = None \<and> JUPYTER_BASE_URL pe = None \<and> existing_server sv = Inr None
        \<and> launched_server sv = Inl e"
  then have "find_settings pe sv s =
     (Inl e, [Debug (''Launching jupyter server on '' @ sourcePath (resolve_path sv) s)])"
    by (simp add: find_settings_launch_error)
  then show "createJupyterSessionManager pe sv s =
          (Inr None,
           [Debug (''Launching jupyter server on '' @ sourcePath (resolve_path sv) s),
            LogError ''Unable to instantiate connection to Jupyter Server'' e])"
    using create_of_settings_error by fastforce
next
  assume "find_settings pe sv s = (Inr partial, lg) \<and> connection_error sv = Some e"
  then show "createJupyterSessionManager pe sv s =
          (Inr None, lg @ [LogError ''Unable to instantiate connection to Jupyter Server'' e])"
    by (simp add: create_of_connection_error)
next
  assume "p < length (promises w) \<and> state (promises w ! p) = Pending
        \<and> made_by (promises w ! p) = Acquisition sid"
  then show "\<exists>v. promise_state_of p (settle_acquisition p sv w) = Fulfilled v"
    by (simp add: settle_acquisition_fulfils)
qed

text \<open>
  Claim C3 at a machine without a running server on which the launch fails, at a build
  stream that breaks, at a discovery that fails, at settings the connection rejects, and
  at the promise of a first call of \<^verbatim>\<open>jupyterSessionManager\<close>.
\<close>

theorem C3_witness:
  "createJupyterSessionManager plain_env quiet_services fresh_session =
     (Inr None,
      [Debug ''Launching jupyter server on .'',
       LogError ''Unable to instantiate connection to Jupyter Server''
         (Error ''spawn jupyter ENOENT'')])
   \<and> createJupyterSessionManager binder_env (quiet_services\<lparr>build_events := broken_stream\<rparr>)
       fresh_session =
     (Inr None,
      [Console ''[building] step 1/3'',
       LogError ''Unable to instantiate connection to Jupyter Server'' (Error ''socket hang up'')])
   \<and> createJupyterSessionManager plain_env
       (quiet_services\<lparr>existing_server := Inl (Error ''EACCES'')\<rparr>) fresh_session =
     (Inr None,
      [LogError ''Unable to instantiate connection to Jupyter Server'' (Error ''EACCES'')])
   \<and> createJupyterSessionManager plain_env
       (spawning_services\<lparr>connection_error := Some (Error ''Invalid URL'')\<rparr>) fresh_session =
     (Inr None,
      [Debug ''Launching jupyter server on .'',
       LogError ''Unable to instantiate connection to Jupyter Server'' (Error ''Invalid URL'')])
   \<and> (\<exists>v. promise_state_of 0
          (settle_acquisition 0 quiet_services (snd (jupyterSessionManager 0 one_session_world)))
        = Fulfilled v)"
proof -
  note t = C3_acquisition_errors_are_caught
  have h: "BINDER_REPO_SPEC plain_env = None \<and> JUPYTER_BASE_URL plain_env = None
           \<and> existing_server quiet_services = Inr None
           \<and> launched_server quiet_services = Inl (Error ''spawn jupyter ENOENT'')"
    by (simp add: plain_env_def quiet_services_def)
  note t [of plain_env quiet_services fresh_session,
      THEN conjunct2, THEN conjunct2, THEN conjunct2, THEN conjunct2, THEN conjunct1,
      rule_format, OF h]
  then have a: "createJupyterSessionManager plain_env quiet_services fresh_session =
     (Inr None,
      [Debug ''Launching jupyter server on .'',
       LogError ''Unable to instantiate connection to Jupyter Server''
         (Error ''spawn jupyter ENOENT'')])"
    by (simp add: sourcePath_def quiet_services_def fresh_session_def new_Session_def
        initial_store_def)
  let ?sb = "quiet_services\<lparr>build_events := broken_stream\<rparr>"
  have hb: "BINDER_REPO_SPEC binder_env = Some ''gh/executablebooks/thebe-binder-base/HEAD''
            \<and> build_events ?sb =
                map Yield [phase_event ''building'' ''step 1/3''] @ Throw (Error ''socket hang up'') # []
            \<and> (\<forall>x \<in> set [phase_event ''building'' ''step 1/3''].
                  phase x \<noteq> ''ready'' \<and> phase x \<noteq> ''failed'')"
    by (simp add: binder_env_def broken_stream_def phase_event_def)
  note t [of binder_env ?sb fresh_session, THEN conjunct2, THEN conjunct2, THEN conjunct1,
      rule_format, OF hb]
  then have b: "createJupyterSessionManager binder_env ?sb fresh_session =
     (Inr None,
      [Console ''[building] step 1/3'',
       LogError ''Unable to instantiate connection to Jupyter Server'' (Error ''socket hang up'')])"
    by (simp add: phase_event_def console_line_def trim_def is_space_def)
  let ?sd = "quiet_services\<lparr>existing_server := Inl (Error ''EACCES'')\<rparr>"
  have hd: "BINDER_REPO_SPEC plain_env = None \<and> JUPYTER_BASE_URL plain_env = None
            \<and> existing_server ?sd = Inl (Error ''EACCES'')"
    by (simp add: plain_env_def)
  note c = t [of plain_env ?sd fresh_session, THEN conjunct2, THEN conjunct2, THEN conjunct2,
      THEN conjunct1, rule_format, OF hd]
  let ?sc = "spawning_services\<lparr>connection_error := Some (Error ''Invalid URL'')\<rparr>"
  have hc: "find_settings plain_env ?sc fresh_session =
              (Inr (Some \<lparr>baseUrl = Some ''http://localhost:8888/'', token = Some ''s3cr3t'',
                           appUrl = Some ''http://localhost:8888/'', has_dispose = True\<rparr>),
               [Debug ''Launching jupyter server on .''])
            \<and> connection_error ?sc = Some (Error ''Invalid URL'')"
    by (simp add: find_settings_def plain_env_def spawning_services_def quiet_services_def
        sourcePath_def fresh_session_def new_Session_def initial_store_def)
  note t [of plain_env ?sc fresh_session, THEN conjunct2, THEN conjunct2, THEN conjunct2,
      THEN conjunct2, THEN conjunct2, THEN conjunct1, rule_format, OF hc]
  then have d: "createJupyterSessionManager plain_env ?sc fresh_session =
     (Inr None,
      [Debug ''Launching jupyter server on .'',
       LogError ''Unable to instantiate connection to Jupyter Server'' (Error ''Invalid URL'')])"
    by simp
  let ?w = "snd (jupyterSessionManager 0 one_session_world)"
  have hp: "0 < length (promises ?w) \<and> state (promises ?w ! 0) = Pending
            \<and> made_by (promises ?w ! 0) = Acquisition 0"
    by (simp add: jupyterSessionManager_def start_task_def one_session_world_def
        fresh_session_def new_Session_def)
  note e = t [of _ quiet_services _ _ _ _ _ _ _ 0 ?w 0, THEN conjunct2, THEN conjunct2,
      THEN conjunct2, THEN conjunct2, THEN conjunct2, THEN conjunct2, rule_format, OF hp]
  from a b c d e show ?thesis by (intro conjI)
qed

section \<open>Properties of the steps of the event loop\<close>

subsection \<open>What the reactions leave unchanged\<close>

lemma nth_update_field:
  "f x = f (xs ! i) \<Longrightarrow> f (xs[i := x] ! j) = f (xs ! j)"
  by (cases "i < length xs") (auto simp: nth_list_update list_update_beyond)

lemma run_reaction_promises: "promises (run_reaction w pr) = promises w"
  by (cases "(w, pr)" rule: run_reaction.cases)
     (auto split: promise_state.splits settled_value.splits)

lemma run_reaction_length: "length (sessions (run_reaction w pr)) = length (sessions w)"
  by (cases "(w, pr)" rule: run_reaction.cases)
     (auto split: promise_state.splits settled_value.splits)

lemma run_reaction_slot:
  "jupyterSessionManagerPromise (sessions (run_reaction w pr) ! i) =
   jupyterSessionManagerPromise (sessions w ! i)"
  by (cases "(w, pr)" rule: run_reaction.cases)
     (auto simp: nth_update_field split: promise_state.splits settled_value.splits)

lemma run_reaction_plugin_slot:
  "pluginPromise (sessions (run_reaction w pr) ! i) = pluginPromise (sessions w ! i)"
  by (cases "(w, pr)" rule: run_reaction.cases)
     (auto simp: nth_update_field split: promise_state.splits settled_value.splits)

lemma count_manager_dispose: "count_list (manager_dispose m) (Started t) = 0"
  by (simp add: manager_dispose_def split: option.splits)

lemma count_then_dispose: "count_list (then_dispose ps) (Started t) = 0"
  by (simp add: then_dispose_def count_manager_dispose
      split: promise_state.splits settled_value.splits)

lemma run_reaction_started:
  "count_list (trace (run_reaction w pr)) (Started t) = count_list (trace w) (Started t)"
  by (cases "(w, pr)" rule: run_reaction.cases)
     (auto simp: count_then_dispose split: promise_state.splits settled_value.splits)

lemma foldl_run_reaction_promises: "promises (foldl run_reaction w rs) = promises w"
  by (induction rs arbitrary: w) (simp_all add: run_reaction_promises)

lemma foldl_run_reaction_length:
  "length (sessions (foldl run_reaction w rs)) = length (sessions w)"
  by (induction rs arbitrary: w) (simp_all add: run_reaction_length)

lemma foldl_run_reaction_slot:
  "jupyterSessionManagerPromise (sessions (foldl run_reaction w rs) ! i) =
   jupyterSessionManagerPromise (sessions w ! i)"
  by (induction rs arbitrary: w) (simp_all add: run_reaction_slot)

lemma foldl_run_reaction_plugin_slot:
  "pluginPromise (sessions (foldl run_reaction w rs) ! i) = pluginPromise (sessions w ! i)"
  by (induction rs arbitrary: w) (simp_all add: run_reaction_plugin_slot)

lemma foldl_run_reaction_started:
  "count_list (trace (foldl run_reaction w rs)) (Started t) = count_list (trace w) (Started t)"
  by (induction rs arbitrary: w) (simp_all add: run_reaction_started)

lemma run_jobs_promises: "promises (run_jobs w) = promises w"
  by (simp add: run_jobs_def foldl_run_reaction_promises)

lemma run_jobs_length: "length (sessions (run_jobs w)) = length (sessions w)"
  by (simp add: run_jobs_def foldl_run_reaction_length)

lemma run_jobs_slot: "slot i (run_jobs w) = slot i w"
  by (simp add: run_jobs_def slot_def foldl_run_reaction_slot)

lemma run_jobs_plugin_slot:
  "pluginPromise (sessions (run_jobs w) ! i) = pluginPromise (sessions w ! i)"
  by (simp add: run_jobs_def foldl_run_reaction_plugin_slot)

lemma run_jobs_started:
  "count_list (trace (run_jobs w)) (Started t) = count_list (trace w) (Started t)"
  by (simp add: run_jobs_def foldl_run_reaction_started)

subsection \<open>What the settling steps leave unchanged\<close>

lemma settle_acquisition_sessions: "sessions (settle_acquisition p sv w) = sessions w"
  by (simp add: settle_acquisition_def split: promise_state.splits task.splits prod.splits)

lemma settle_plugins_sessions: "sessions (settle_plugins p r w) = sessions w"
  by (simp add: settle_plugins_def split: promise_state.splits task.splits prod.splits)

lemma settle_acquisition_started:
  "count_list (trace (settle_acquisition p sv w)) (Started t) = count_list (trace w) (Started t)"
proof -
  have "count_list (map Logged lg) (Started t) = 0" for lg
    by (induction lg) simp_all
  then show ?thesis
    by (simp add: settle_acquisition_def split: promise_state.splits task.splits prod.splits)
qed

lemma settle_plugins_trace: "trace (settle_plugins p r w) = trace w"
  by (simp add: settle_plugins_def split: promise_state.splits task.splits prod.splits)

lemma settle_acquisition_length_promises:
  "length (promises (settle_acquisition p sv w)) = length (promises w)"
  by (simp add: settle_acquisition_def split: promise_state.splits task.splits prod.splits)

lemma settle_plugins_length_promises:
  "length (promises (settle_plugins p r w)) = length (promises w)"
  by (simp add: settle_plugins_def split: promise_state.splits task.splits prod.splits)

lemma settle_acquisition_settled:
  "state (promises w ! q) \<noteq> Pending \<Longrightarrow>
   state (promises (settle_acquisition p sv w) ! q) = state (promises w ! q)"
  by (auto simp: settle_acquisition_def nth_list_update
           split: promise_state.splits task.splits prod.splits)

lemma settle_plugins_settled:
  "state (promises w ! q) \<noteq> Pending \<Longrightarrow>
   state (promises (settle_plugins p r w) ! q) = state (promises w ! q)"
  by (auto simp: settle_plugins_def nth_list_update
           split: promise_state.splits task.splits prod.splits)

subsection \<open>What the calls change\<close>

lemma jsm_fst:
  "fst (jupyterSessionManager s w) =
     (case slot s w of Some p \<Rightarrow> p | None \<Rightarrow> length (promises w))"
  by (simp add: jupyterSessionManager_def slot_def start_task_def split: option.splits)

lemma jsm_set: "slot s w = Some p \<Longrightarrow> jupyterSessionManager s w = (p, w)"
  by (simp add: jupyterSessionManager_def slot_def)

lemma jsm_length: "length (sessions (snd (jupyterSessionManager s w))) = length (sessions w)"
  by (simp add: jupyterSessionManager_def start_task_def split: option.splits)

lemma jsm_slot:
  "s < length (sessions w) \<Longrightarrow>
   slot i (snd (jupyterSessionManager s w)) =
     (if i = s then Some (fst (jupyterSessionManager s w)) else slot i w)"
  by (simp add: jupyterSessionManager_def slot_def start_task_def split: option.splits)

lemma jsm_plugin_slot:
  "pluginPromise (sessions (snd (jupyterSessionManager s w)) ! i) = pluginPromise (sessions w ! i)"
  by (simp add: jupyterSessionManager_def start_task_def nth_update_field split: option.splits)

lemma jsm_trace:
  "trace (snd (jupyterSessionManager s w)) =
     trace w @ (if slot s w = None then [Started (Acquisition s)] else [])"
  by (simp add: jupyterSessionManager_def slot_def start_task_def split: option.splits)

lemma jsm_promises:
  "promises (snd (jupyterSessionManager s w)) =
     promises w @ (if slot s w = None then [\<lparr>state = Pending, made_by = Acquisition s\<rparr>] else [])"
  by (simp add: jupyterSessionManager_def slot_def start_task_def split: option.splits)

lemma lp_fst:
  "fst (loadPlugins s w) =
     (case pluginPromise (sessions w ! s) of Some p \<Rightarrow> p | None \<Rightarrow> length (promises w))"
  by (simp add: loadPlugins_def start_task_def split: option.splits)

lemma lp_set: "pluginPromise (sessions w ! s) = Some p \<Longrightarrow> loadPlugins s w = (p, w)"
  by (simp add: loadPlugins_def)

lemma lp_length: "length (sessions (snd (loadPlugins s w))) = length (sessions w)"
  by (simp add: loadPlugins_def start_task_def split: option.splits)

lemma lp_slot: "slot i (snd (loadPlugins s w)) = slot i w"
  by (simp add: loadPlugins_def slot_def start_task_def nth_update_field split: option.splits)

lemma lp_plugin_slot:
  "s < length (sessions w) \<Longrightarrow>
   pluginPromise (sessions (snd (loadPlugins s w)) ! i) =
     (if i = s then Some (fst (loadPlugins s w)) else pluginPromise (sessions w ! i))"
  by (simp add: loadPlugins_def start_task_def split: option.splits)

lemma lp_trace:
  "trace (snd (loadPlugins s w)) =
     trace w @ (if pluginPromise (sessions w ! s) = None then [Started (PluginLoad s)] else [])"
  by (simp add: loadPlugins_def start_task_def split: option.splits)

lemma lp_promises:
  "promises (snd (loadPlugins s w)) =
     promises w @ (if pluginPromise (sessions w ! s) = None
                   then [\<lparr>state = Pending, made_by = PluginLoad s\<rparr>] else [])"
  by (simp add: loadPlugins_def start_task_def split: option.splits)

lemma dispose_length: "length (sessions (dispose s w)) = length (sessions w)"
  by (simp add: dispose_def split: option.splits)

lemma dispose_slot:
  "s < length (sessions w) \<Longrightarrow> slot i (dispose s w) = (if i = s then None else slot i w)"
  by (simp add: dispose_def slot_def split: option.splits)

lemma dispose_plugin_slot:
  "pluginPromise (sessions (dispose s w) ! i) = pluginPromise (sessions w ! i)"
  by (simp add: dispose_def nth_update_field split: option.splits)

lemma dispose_trace: "trace (dispose s w) = trace w"
  by (simp add: dispose_def split: option.splits)

lemma dispose_promises: "promises (dispose s w) = promises w"
  by (simp add: dispose_def split: option.splits)

lemma clone_length: "length (sessions w) \<le> length (sessions (snd (clone s r w)))"
  by (simp add: clone_def Let_def split: sum.splits)

lemma clone_slot:
  "i < length (sessions w) \<Longrightarrow> slot i (snd (clone s r w)) = slot i w"
  by (simp add: clone_def Let_def slot_def nth_append nth_update_field split: sum.splits)

lemma clone_plugin_slot:
  "i < length (sessions w) \<Longrightarrow>
   pluginPromise (sessions (snd (clone s r w)) ! i) = pluginPromise (sessions w ! i)"
  by (simp add: clone_def Let_def nth_append nth_update_field split: sum.splits)

lemma clone_trace: "trace (snd (clone s r w)) = trace w"
  by (simp add: clone_def Let_def split: sum.splits)

lemma clone_promises: "promises (snd (clone s r w)) = promises w"
  by (simp add: clone_def Let_def split: sum.splits)

subsection \<open>What one step changes\<close>

lemma exec_length: "length (sessions w) \<le> length (sessions (exec w st))"
  by (cases st)
     (simp_all add: jsm_length lp_length dispose_length clone_length
        settle_acquisition_sessions settle_plugins_sessions run_jobs_length)

lemma exec_slot:
  assumes "sid < length (sessions w)"
  shows "slot sid (exec w st) =
           (if st = CallDispose sid then None
            else if st = CallJupyterSessionManager sid
                 then Some (fst (jupyterSessionManager sid w))
                 else slot sid w)"
proof (cases st)
  case (CallJupyterSessionManager s)
  then show ?thesis using assms by (simp add: jsm_slot)
next
  case (CallLoadPlugins s)
  then show ?thesis by (simp add: lp_slot)
next
  case (CallDispose s)
  then show ?thesis using assms by (simp add: dispose_slot)
next
  case (CallClone s r)
  then show ?thesis using assms by (simp add: clone_slot)
next
  case (SettleAcquisition p sv)
  then show ?thesis by (simp add: slot_def settle_acquisition_sessions)
next
  case (SettlePlugins p r)
  then show ?thesis by (simp add: slot_def settle_plugins_sessions)
next
  case RunJobs
  then show ?thesis by (simp add: run_jobs_slot)
qed

lemma exec_acquisitions:
  "acquisitions sid (exec w st) =
     acquisitions sid w +
     (if st = CallJupyterSessionManager sid \<and> sid < length (sessions w) \<and> slot sid w = None
      then 1 else 0)"
proof (cases st)
  case (CallJupyterSessionManager s)
  then show ?thesis by (auto simp: acquisitions_def jsm_trace)
next
  case (CallLoadPlugins s)
  then show ?thesis by (simp add: acquisitions_def lp_trace)
next
  case (CallDispose s)
  then show ?thesis by (simp add: acquisitions_def dispose_trace)
next
  case (CallClone s r)
  then show ?thesis by (simp add: acquisitions_def clone_trace)
next
  case (SettleAcquisition p sv)
  then show ?thesis by (simp add: acquisitions_def settle_acquisition_started)
next
  case (SettlePlugins p r)
  then show ?thesis by (simp add: acquisitions_def settle_plugins_trace)
next
  case RunJobs
  then show ?thesis by (simp add: acquisitions_def run_jobs_started)
qed

lemma exec_plugin_slot:
  assumes "sid < length (sessions w)"
  shows "pluginPromise (sessions (exec w st) ! sid) =
           (if st = CallLoadPlugins sid then Some (fst (loadPlugins sid w))
            else pluginPromise (sessions w ! sid))"
proof (cases st)
  case (CallJupyterSessionManager s)
  then show ?thesis by (simp add: jsm_plugin_slot)
next
  case (CallLoadPlugins s)
  then show ?thesis using assms by (simp add: lp_plugin_slot)
next
  case (CallDispose s)
  then show ?thesis by (simp add: dispose_plugin_slot)
next
  case (CallClone s r)
  then show ?thesis using assms by (simp add: clone_plugin_slot)
next
  case (SettleAcquisition p sv)
  then show ?thesis by (simp add: settle_acquisition_sessions)
next
  case (SettlePlugins p r)
  then show ?thesis by (simp add: settle_plugins_sessions)
next
  case RunJobs
  then show ?thesis by (simp add: run_jobs_plugin_slot)
qed

lemma exec_plugin_loads:
  "plugin_loads sid (exec w st) =
     plugin_loads sid w +
     (if st = CallLoadPlugins sid \<and> sid < length (sessions w)
         \<and> pluginPromise (sessions w ! sid) = None
      then 1 else 0)"
proof (cases st)
  case (CallJupyterSessionManager s)
  then show ?thesis by (simp add: plugin_loads_def jsm_trace)
next
  case (CallLoadPlugins s)
  then show ?thesis by (auto simp: plugin_loads_def lp_trace)
next
  case (CallDispose s)
  then show ?thesis by (simp add: plugin_loads_def dispose_trace)
next
  case (CallClone s r)
  then show ?thesis by (simp add: plugin_loads_def clone_trace)
next
  case (SettleAcquisition p sv)
  then show ?thesis by (simp add: plugin_loads_def settle_acquisition_started)
next
  case (SettlePlugins p r)
  then show ?thesis by (simp add: plugin_loads_def settle_plugins_trace)
next
  case RunJobs
  then show ?thesis by (simp add: plugin_loads_def run_jobs_started)
qed

lemma exec_settled:
  assumes "q < length (promises w)" and "state (promises w ! q) \<noteq> Pending"
  shows "q < length (promises (exec w st))
         \<and> state (promises (exec w st) ! q) = state (promises w ! q)"
proof (cases st)
  case (CallJupyterSessionManager s)
  then show ?thesis using assms by (simp add: jsm_promises nth_append)
next
  case (CallLoadPlugins s)
  then show ?thesis using assms by (simp add: lp_promises nth_append)
next
  case (CallDispose s)
  then show ?thesis using assms by (simp add: dispose_promises)
next
  case (CallClone s r)
  then show ?thesis using assms by (simp add: clone_promises)
next
  case (SettleAcquisition p sv)
  then show ?thesis using assms
    by (simp add: settle_acquisition_settled settle_acquisition_length_promises)
next
  case (SettlePlugins p r)
  then show ?thesis using assms
    by (simp add: settle_plugins_settled settle_plugins_length_promises)
next
  case RunJobs
  then show ?thesis using assms by (simp add: run_jobs_promises)
qed

subsection \<open>What a run changes\<close>

lemma run_Nil: "run [] w = w"
  by (simp add: run_def)

lemma run_Cons: "run (st # steps) w = run steps (exec w st)"
  by (simp add: run_def)

lemma run_length: "length (sessions w) \<le> length (sessions (run steps w))"
proof (induction steps arbitrary: w)
  case Nil
  then show ?case by (simp add: run_Nil)
next
  case (Cons st steps)
  have "length (sessions w) \<le> length (sessions (exec w st))" by (rule exec_length)
  also have "\<dots> \<le> length (sessions (run steps (exec w st)))" by (rule Cons.IH)
  finally show ?case by (simp add: run_Cons)
qed

lemma run_slot_kept:
  assumes "sid < length (sessions w)" and "slot sid w = Some p" and "CallDispose sid \<notin> set steps"
  shows "slot sid (run steps w) = Some p \<and> acquisitions sid (run steps w) = acquisitions sid w"
  using assms
proof (induction steps arbitrary: w)
  case Nil
  then show ?case by (simp add: run_Nil)
next
  case (Cons st steps)
  from Cons.prems have st: "st \<noteq> CallDispose sid" and rest: "CallDispose sid \<notin> set steps"
    by auto
  have len: "sid < length (sessions (exec w st))"
    using Cons.prems(1) exec_length [of w st] by simp
  have sl: "slot sid (exec w st) = Some p"
    using Cons.prems(1,2) st by (simp add: exec_slot jsm_fst)
  have ac: "acquisitions sid (exec w st) = acquisitions sid w"
    using Cons.prems(2) by (simp add: exec_acquisitions)
  from Cons.IH [OF len sl rest] ac show ?case by (simp add: run_Cons)
qed

lemma run_plugin_slot_kept:
  assumes "sid < length (sessions w)" and "pluginPromise (sessions w ! sid) = Some p"
  shows "pluginPromise (sessions (run steps w) ! sid) = Some p
         \<and> plugin_loads sid (run steps w) = plugin_loads sid w"
  using assms
proof (induction steps arbitrary: w)
  case Nil
  then show ?case by (simp add: run_Nil)
next
  case (Cons st steps)
  have len: "sid < length (sessions (exec w st))"
    using Cons.prems(1) exec_length [of w st] by simp
  have sl: "pluginPromise (sessions (exec w st) ! sid) = Some p"
    using Cons.prems by (simp add: exec_plugin_slot lp_fst)
  have ac: "plugin_loads sid (exec w st) = plugin_loads sid w"
    using Cons.prems(2) by (simp add: exec_plugin_loads)
  from Cons.IH [OF len sl] ac show ?case by (simp add: run_Cons)
qed

lemma run_settled:
  assumes "q < length (promises w)" and "state (promises w ! q) \<noteq> Pending"
  shows "q < length (promises (run steps w))
         \<and> state (promises (run steps w) ! q) = state (promises w ! q)"
  using assms
proof (induction steps arbitrary: w)
  case Nil
  then show ?case by (simp add: run_Nil)
next
  case (Cons st steps)
  from exec_settled [OF Cons.prems, of st]
  have a: "q < length (promises (exec w st))"
    and b: "state (promises (exec w st) ! q) = state (promises w ! q)"
    by simp_all
  from b Cons.prems(2) have c: "state (promises (exec w st) ! q) \<noteq> Pending" by simp
  from Cons.IH [OF a c] b show ?case by (simp add: run_Cons)
qed

lemma run_acquisitions_bound:
  assumes "sid < length (sessions w)"
  shows "acquisitions sid (run steps w) + (if slot sid (run steps w) = None then 1 else 0)
         \<le> acquisitions sid w + (if slot sid w = None then 1 else 0)
            + count_list steps (CallDispose sid)"
  using assms
proof (induction steps arbitrary: w)
  case Nil
  then show ?case by (simp add: run_Nil)
next
  case (Cons st steps)
  have len: "sid < length (sessions (exec w st))"
    using Cons.prems exec_length [of w st] by simp
  have one: "acquisitions sid (exec w st) + (if slot sid (exec w st) = None then 1 else 0)
             \<le> acquisitions sid w + (if slot sid w = None then 1 else 0)
                + (if st = CallDispose sid then 1 else 0)"
    using Cons.prems by (simp add: exec_slot exec_acquisitions)
  define a where
    "a = acquisitions sid (run steps (exec w st))
         + (if slot sid (run steps (exec w st)) = None then 1 else 0)"
  define b where
    "b = acquisitions sid (exec w st) + (if slot sid (exec w st) = None then 1 else 0)"
  define c where "c = acquisitions sid w + (if slot sid w = None then 1 else 0)"
  define d :: nat where "d = (if st = CallDispose sid then 1 else 0)"
  have ab: "a \<le> b + count_list steps (CallDispose sid)"
    using Cons.IH [OF len] unfolding a_def b_def .
  have bc: "b \<le> c + d"
    using one unfolding b_def c_def d_def .
  have cnt: "count_list (st # steps) (CallDispose sid) = d + count_list steps (CallDispose sid)"
    by (simp add: d_def)
  from ab bc cnt have "a \<le> c + count_list (st # steps) (CallDispose sid)"
    by linarith
  then show ?case
    unfolding a_def c_def run_Cons .
qed

section \<open>Memoization, cloning and disposal\<close>

text \<open>The worlds of the worked examples, evaluated.\<close>

lemma one_session_world_simps:
  "sessions one_session_world = [fresh_session]"
  "promises one_session_world = []"
  "trace one_session_world = []"
  "reactions one_session_world = []"
  by (simp_all add: one_session_world_def)

lemma fresh_session_simps:
  "jupyterSessionManagerPromise fresh_session = None"
  "pluginPromise fresh_session = None"
  by (simp_all add: fresh_session_def new_Session_def)

lemmas eval_defs =
  run_def jupyterSessionManager_def loadPlugins_def dispose_def clone_def start_task_def
  settle_acquisition_def settle_plugins_def settle_with_def createJupyterSessionManager_def
  try_acquire_def find_settings_def sourcePath_def run_jobs_def is_settled_def then_dispose_def
  manager_dispose_def
  one_session_world_def fresh_session_def new_Session_def initial_store_def plain_env_def
  quiet_services_def acquisitions_def plugin_loads_def promise_state_of_def slot_def Let_def

lemma resolved_world_facts:
  "length (sessions resolved_world) = 1"
  "slot 0 resolved_world = Some 0"
  "promise_state_of 0 resolved_world = Fulfilled Undefined"
  "acquisitions 0 resolved_world = 1"
  "acquisitions 1 resolved_world = 0"
  by (simp_all add: resolved_world_def eval_defs)

lemma owned_world_facts:
  "length (sessions owned_world) = 1"
  "slot 0 owned_world = Some 0"
  "reactions owned_world = []"
  "promise_state_of 0 owned_world =
     Fulfilled (Manager \<lparr>partialServerSettings =
        Some \<lparr>baseUrl = Some ''http://localhost:8888/'', token = Some ''s3cr3t'',
              appUrl = Some ''http://localhost:8888/'', has_dispose = True\<rparr>\<rparr>)"
  "teardowns (run_jobs owned_world) = 0"
  by (simp_all add: owned_world_def spawning_services_def teardowns_def eval_defs)

text \<open>
  Claim C1.  For every session and both memoized slots: after a call of
  \<^verbatim>\<open>jupyterSessionManager\<close>, whatever calls, settlements and jobs follow (calls on this
  and on other sessions, before or after the promise settles, but no \<^verbatim>\<open>dispose\<close> of this
  session), a further call returns the same promise, changes nothing and starts no
  acquisition; the first call starts at most one.  The same holds for \<^verbatim>\<open>loadPlugins\<close> and
  the plugin loader, after any steps at all.  A promise that has settled keeps its
  outcome through every run, so all callers, holding the same promise, see the same
  outcome.
\<close>

theorem C1_memoized_factory_runs_once:
  assumes "sid < length (sessions w)"
  shows "(CallDispose sid \<notin> set steps \<longrightarrow>
            jupyterSessionManager sid (run steps (snd (jupyterSessionManager sid w))) =
              (fst (jupyterSessionManager sid w), run steps (snd (jupyterSessionManager sid w)))
          \<and> acquisitions sid (run steps (snd (jupyterSessionManager sid w))) =
              acquisitions sid (snd (jupyterSessionManager sid w)))
       \<and> acquisitions sid (snd (jupyterSessionManager sid w)) \<le> acquisitions sid w + 1
       \<and> loadPlugins sid (run steps (snd (loadPlugins sid w))) =
              (fst (loadPlugins sid w), run steps (snd (loadPlugins sid w)))
       \<and> plugin_loads sid (run steps (snd (loadPlugins sid w))) =
              plugin_loads sid (snd (loadPlugins sid w))
       \<and> plugin_loads sid (snd (loadPlugins sid w)) \<le> plugin_loads sid w + 1
       \<and> (p < length (promises w) \<and> promise_state_of p w \<noteq> Pending \<longrightarrow>
            promise_state_of p (run steps w) = promise_state_of p w)"
proof (intro conjI impI)
  let ?p = "fst (jupyterSessionManager sid w)"
  let ?w1 = "snd (jupyterSessionManager sid w)"
  have len: "sid < length (sessions ?w1)"
    using assms by (simp add: jsm_length)
  have sl: "slot sid ?w1 = Some ?p"
    using assms by (simp add: jsm_slot)
  {
    assume nd: "CallDispose sid \<notin> set steps"
    from run_slot_kept [OF len sl nd]
    have kept: "slot sid (run steps ?w1) = Some ?p"
      and same: "acquisitions sid (run steps ?w1) = acquisitions sid ?w1"
      by simp_all
    from kept show "jupyterSessionManager sid (run steps ?w1) = (?p, run steps ?w1)"
      by (rule jsm_set)
    from same show "acquisitions sid (run steps ?w1) = acquisitions sid ?w1" .
  }
  show "acquisitions sid ?w1 \<le> acquisitions sid w + 1"
    by (simp add: acquisitions_def jsm_trace)
next
  let ?p = "fst (loadPlugins sid w)"
  let ?w1 = "snd (loadPlugins sid w)"
  have len: "sid < length (sessions ?w1)"
    using assms by (simp add: lp_length)
  have sl: "pluginPromise (sessions ?w1 ! sid) = Some ?p"
    using assms by (simp add: lp_plugin_slot)
  from run_plugin_slot_kept [OF len sl, of steps]
  have kept: "pluginPromise (sessions (run steps ?w1) ! sid) = Some ?p"
    and same: "plugin_loads sid (run steps ?w1) = plugin_loads sid ?w1"
    by simp_all
  from kept show "loadPlugins sid (run steps ?w1) = (?p, run steps ?w1)"
    by (rule lp_set)
  from same show "plugin_loads sid (run steps ?w1) = plugin_loads sid ?w1" .
  show "plugin_loads sid ?w1 \<le> plugin_loads sid w + 1"
    by (simp add: plugin_loads_def lp_trace)
next
  assume "p < length (promises w) \<and> promise_state_of p w \<noteq> Pending"
  then show "promise_state_of p (run steps w) = promise_state_of p w"
    using run_settled [of p w steps] by (simp add: promise_state_of_def)
qed

text \<open>
  Claim C1 at a session on which both methods are called several times, before and
  after the acquisition has settled: one acquisition and one plugin load; and at a
  resolved promise, which keeps its outcome through the same calls.
\<close>

theorem C1_witness:
  "fst (jupyterSessionManager 0
          (run concurrent_calls (snd (jupyterSessionManager 0 one_session_world)))) = 0
   \<and> acquisitions 0 (run concurrent_calls (snd (jupyterSessionManager 0 one_session_world))) = 1
   \<and> fst (loadPlugins 0 (run concurrent_calls (snd (loadPlugins 0 one_session_world)))) = 0
   \<and> plugin_loads 0 (run concurrent_calls (snd (loadPlugins 0 one_session_world))) = 1
   \<and> promise_state_of 0 (run concurrent_calls resolved_world) = Fulfilled Undefined"
proof -
  have h: "(0::nat) < length (sessions one_session_world)"
    by (simp add: one_session_world_simps)
  have nd: "CallDispose 0 \<notin> set concurrent_calls"
    by (simp add: concurrent_calls_def)
  note t = C1_memoized_factory_runs_once [OF h, of concurrent_calls 0]
  have j: "jupyterSessionManager 0 one_session_world =
             (0, one_session_world
                  \<lparr>promises := [\<lparr>state = Pending, made_by = Acquisition 0\<rparr>],
                    trace := [Started (Acquisition 0)],
                    sessions := [fresh_session\<lparr>jupyterSessionManagerPromise := Some 0\<rparr>]\<rparr>)"
    by (simp add: jupyterSessionManager_def start_task_def one_session_world_simps
        fresh_session_simps)
  have l: "loadPlugins 0 one_session_world =
             (0, one_session_world
                  \<lparr>promises := [\<lparr>state = Pending, made_by = PluginLoad 0\<rparr>],
                    trace := [Started (PluginLoad 0)],
                    sessions := [fresh_session\<lparr>pluginPromise := Some 0\<rparr>],
                    reactions := [(0, AssignPlugins 0)]\<rparr>)"
    by (simp add: loadPlugins_def start_task_def one_session_world_simps fresh_session_simps)
  have a1: "acquisitions 0 (snd (jupyterSessionManager 0 one_session_world)) = 1"
    by (simp add: j acquisitions_def)
  have p1: "plugin_loads 0 (snd (loadPlugins 0 one_session_world)) = 1"
    by (simp add: l plugin_loads_def)
  from t [THEN conjunct1, rule_format, OF nd] j a1
  have c1: "fst (jupyterSessionManager 0
          (run concurrent_calls (snd (jupyterSessionManager 0 one_session_world)))) = 0"
    and c2: "acquisitions 0
          (run concurrent_calls (snd (jupyterSessionManager 0 one_session_world))) = 1"
    by simp_all
  from t [THEN conjunct2, THEN conjunct2, THEN conjunct1] l
  have c3: "fst (loadPlugins 0 (run concurrent_calls (snd (loadPlugins 0 one_session_world)))) = 0"
    by simp
  from t [THEN conjunct2, THEN conjunct2, THEN conjunct2, THEN conjunct1] p1
  have c4: "plugin_loads 0 (run concurrent_calls (snd (loadPlugins 0 one_session_world))) = 1"
    by simp
  have hr: "(0::nat) < length (sessions resolved_world)"
    by (simp add: resolved_world_facts)
  have hs: "0 < length (promises resolved_world) \<and> promise_state_of 0 resolved_world \<noteq> Pending"
    by (simp add: resolved_world_facts(3)) (simp add: resolved_world_def eval_defs)
  from C1_memoized_factory_runs_once [OF hr, of concurrent_calls 0, THEN conjunct2, THEN conjunct2,
      THEN conjunct2, THEN conjunct2, THEN conjunct2, rule_format, OF hs]
  have c5: "promise_state_of 0 (run concurrent_calls resolved_world) = Fulfilled Undefined"
    by (simp add: resolved_world_facts)
  from c1 c2 c3 c4 c5 show ?thesis by (intro conjI)
qed

text \<open>
  Claim C7 as stated fails: \<^verbatim>\<open>dispose\<close> clears the slot, so after the acquisition has
  resolved (here to \<^verbatim>\<open>undefined\<close>) and the session has been disposed, the next call of
  \<^verbatim>\<open>jupyterSessionManager\<close> runs the acquisition a second time.
\<close>

theorem C7_counterexample:
  "promise_state_of 0 (run (take 2 reacquire_steps) one_session_world) = Fulfilled Undefined
   \<and> acquisitions 0 (run (take 2 reacquire_steps) one_session_world) = 1
   \<and> acquisitions 0 (run reacquire_steps one_session_world) = 2"
  by (simp add: reacquire_steps_def eval_defs)

text \<open>
  Claim C7, as the code has it.  Over any run, the acquisition is started for a session
  at most once more than \<^verbatim>\<open>dispose\<close> is called on it (and not even once more when the slot
  is already set at the start).  As long as the slot is set and the run does not dispose
  the session, whatever is called on this or any other session, cloning included, starts
  no acquisition for it.  \<^verbatim>\<open>dispose\<close> leaves the slot empty, and the call of
  \<^verbatim>\<open>jupyterSessionManager\<close> after it starts a new acquisition.
\<close>

theorem C7_acquisitions_bounded_by_disposals:
  assumes "sid < length (sessions w)"
  shows "acquisitions sid (run steps w)
           \<le> acquisitions sid w + (if slot sid w = None then 1 else 0)
              + count_list steps (CallDispose sid)
       \<and> (slot sid w \<noteq> None \<and> CallDispose sid \<notin> set steps \<longrightarrow>
            acquisitions sid (run steps w) = acquisitions sid w)
       \<and> slot sid (dispose sid w) = None
       \<and> acquisitions sid (snd (jupyterSessionManager sid (dispose sid w))) = acquisitions sid w + 1"
proof (intro conjI impI)
  from run_acquisitions_bound [OF assms, of steps]
  show "acquisitions sid (run steps w)
           \<le> acquisitions sid w + (if slot sid w = None then 1 else 0)
              + count_list steps (CallDispose sid)"
    by (simp split: if_splits)
next
  assume a: "slot sid w \<noteq> None \<and> CallDispose sid \<notin> set steps"
  then obtain p where "slot sid w = Some p" by auto
  with a run_slot_kept [OF assms, of p steps]
  show "acquisitions sid (run steps w) = acquisitions sid w" by simp
next
  show n: "slot sid (dispose sid w) = None"
    using assms by (simp add: dispose_slot)
  then show "acquisitions sid (snd (jupyterSessionManager sid (dispose sid w))) = acquisitions sid w + 1"
    by (simp add: acquisitions_def jsm_trace dispose_trace)
qed

text \<open>
  Claim C7 at the run that disposes once (at most two acquisitions), and at a run of
  calls and a clone on a session whose slot is set (no further acquisition).
\<close>

theorem C7_witness:
  "acquisitions 0 (run reacquire_steps one_session_world) \<le> 2
   \<and> acquisitions 0
        (run [CallJupyterSessionManager 0, CallClone 0 (Inr initial_store),
              CallJupyterSessionManager 0]
           (snd (jupyterSessionManager 0 one_session_world))) = 1"
proof -
  have h: "(0::nat) < length (sessions one_session_world)"
    by (simp add: one_session_world_def)
  have s0: "slot 0 one_session_world = None"
    by (simp add: slot_def one_session_world_def fresh_session_def new_Session_def)
  have a0: "acquisitions 0 one_session_world = 0"
    by (simp add: acquisitions_def one_session_world_def)
  have c: "count_list reacquire_steps (CallDispose 0) = 1"
    by (simp add: reacquire_steps_def)
  from C7_acquisitions_bounded_by_disposals [OF h, of reacquire_steps, THEN conjunct1] s0 a0 c
  have one: "acquisitions 0 (run reacquire_steps one_session_world) \<le> 2"
    by simp
  let ?w1 = "snd (jupyterSessionManager 0 one_session_world)"
  have h1: "(0::nat) < length (sessions ?w1)"
    by (simp add: jsm_length one_session_world_def)
  have s1: "slot 0 ?w1 \<noteq> None \<and>
            CallDispose 0 \<notin> set [CallJupyterSessionManager 0, CallClone 0 (Inr initial_store),
              CallJupyterSessionManager 0]"
    using h by (simp add: jsm_slot)
  have a1: "acquisitions 0 ?w1 = 1"
    using s0 a0 by (simp add: acquisitions_def jsm_trace)
  from C7_acquisitions_bounded_by_disposals [OF h1, THEN conjunct2, THEN conjunct1, rule_format,
      OF s1] a1
  have two: "acquisitions 0
        (run [CallJupyterSessionManager 0, CallClone 0 (Inr initial_store),
              CallJupyterSessionManager 0] ?w1) = 1"
    by simp
  from one two show ?thesis by (rule conjI)
qed

text \<open>
  Claim C4 as stated fails for a clone made while the slot of its origin is empty: the
  clone gets an empty slot, and when the origin has later acquired and resolved its
  backend, the first call of \<^verbatim>\<open>jupyterSessionManager\<close> on the clone still runs an
  acquisition of its own and holds another promise.
\<close>

theorem C4_counterexample:
  "slot 0 (run (take 3 clone_before_acquire) one_session_world) = Some 0
   \<and> promise_state_of 0 (run (take 3 clone_before_acquire) one_session_world) = Fulfilled Undefined
   \<and> acquisitions 1 (run (take 3 clone_before_acquire) one_session_world) = 0
   \<and> acquisitions 1 (run clone_before_acquire one_session_world) = 1
   \<and> slot 1 (run clone_before_acquire one_session_world) = Some 1"
  by (simp add: clone_before_acquire_def eval_defs)

text \<open>
  Claim C4, as the code has it.  \<^verbatim>\<open>clone\<close> returns a new session that has the logger and
  the limiter of its origin, the store that its own \<^verbatim>\<open>reload\<close> has read (the store of the
  origin is untouched), and a copy of the slot of the origin as it is at that moment; the
  origin records the clone at the end of its list, and \<^verbatim>\<open>clone\<close> itself starts nothing and
  settles nothing.  When the slot of the origin is set, \<^verbatim>\<open>jupyterSessionManager\<close> on the
  clone returns the very same promise and starts no acquisition, so the clone of a
  session whose backend is resolved sees the same resolved value.  When the slot is
  empty, the first call on the clone starts an acquisition.
\<close>

theorem C4_clone_shares_and_copies:
  assumes "sid < length (sessions w)"
  shows "fst (clone sid (Inr st) w) = Inr (length (sessions w))
       \<and> logger (sessions (snd (clone sid (Inr st) w)) ! length (sessions w)) =
           logger (sessions w ! sid)
       \<and> doiLimiter (sessions (snd (clone sid (Inr st) w)) ! length (sessions w)) =
           doiLimiter (sessions w ! sid)
       \<and> store (sessions (snd (clone sid (Inr st) w)) ! length (sessions w)) = st
       \<and> store (sessions (snd (clone sid (Inr st) w)) ! sid) = store (sessions w ! sid)
       \<and> slot (length (sessions w)) (snd (clone sid (Inr st) w)) = slot sid w
       \<and> clones (sessions (snd (clone sid (Inr st) w)) ! sid) =
           clones (sessions w ! sid) @ [length (sessions w)]
       \<and> trace (snd (clone sid (Inr st) w)) = trace w
       \<and> promises (snd (clone sid (Inr st) w)) = promises w
       \<and> (slot sid w = Some p \<longrightarrow>
            jupyterSessionManager (length (sessions w)) (snd (clone sid (Inr st) w)) =
              (p, snd (clone sid (Inr st) w))
            \<and> promise_state_of p (snd (clone sid (Inr st) w)) = promise_state_of p w)
       \<and> (slot sid w = None \<longrightarrow>
            acquisitions (length (sessions w))
              (snd (jupyterSessionManager (length (sessions w)) (snd (clone sid (Inr st) w)))) =
            acquisitions (length (sessions w)) w + 1)"
proof -
  let ?c = "length (sessions w)"
  let ?w' = "snd (clone sid (Inr st) w)"
  have ne: "sid \<noteq> ?c" using assms by simp
  have s': "sessions ?w' =
      (sessions w)[sid := (sessions w ! sid)\<lparr>clones := clones (sessions w ! sid) @ [?c]\<rparr>]
      @ [(new_Session (penv w) (logger (sessions w ! sid)) (doiLimiter (sessions w ! sid)))
           \<lparr>store := st,
             jupyterSessionManagerPromise := jupyterSessionManagerPromise (sessions w ! sid)\<rparr>]"
    by (simp add: clone_def Let_def)
  have cl: "sessions ?w' ! ?c =
      (new_Session (penv w) (logger (sessions w ! sid)) (doiLimiter (sessions w ! sid)))
           \<lparr>store := st,
             jupyterSessionManagerPromise := jupyterSessionManagerPromise (sessions w ! sid)\<rparr>"
    by (simp add: s' nth_append)
  have orig: "sessions ?w' ! sid =
      (sessions w ! sid)\<lparr>clones := clones (sessions w ! sid) @ [?c]\<rparr>"
    using assms by (simp add: s' nth_append)
  have tr: "trace ?w' = trace w" by (rule clone_trace)
  have pr: "promises ?w' = promises w" by (rule clone_promises)
  have sl: "slot ?c ?w' = slot sid w"
    by (simp add: slot_def cl)
  have c1: "fst (clone sid (Inr st) w) = Inr ?c"
    by (simp add: clone_def Let_def)
  have c2: "logger (sessions ?w' ! ?c) = logger (sessions w ! sid)"
    by (simp add: cl new_Session_def)
  have c3: "doiLimiter (sessions ?w' ! ?c) = doiLimiter (sessions w ! sid)"
    by (simp add: cl new_Session_def)
  have c4: "store (sessions ?w' ! ?c) = st"
    by (simp add: cl)
  have c5: "store (sessions ?w' ! sid) = store (sessions w ! sid)"
    by (simp add: orig)
  have c7: "clones (sessions ?w' ! sid) = clones (sessions w ! sid) @ [?c]"
    by (simp add: orig)
  have c10: "slot sid w = Some p \<longrightarrow>
            jupyterSessionManager ?c ?w' = (p, ?w')
            \<and> promise_state_of p ?w' = promise_state_of p w"
    using sl by (simp add: jsm_set promise_state_of_def pr)
  have c11: "slot sid w = None \<longrightarrow>
            acquisitions ?c (snd (jupyterSessionManager ?c ?w')) = acquisitions ?c w + 1"
    using sl by (simp add: acquisitions_def jsm_trace tr)
  from c1 c2 c3 c4 c5 sl c7 tr pr c10 c11 show ?thesis
    by (intro conjI)
qed

text \<open>
  Claim C4 at a session whose acquisition has resolved, where the clone shares the
  promise, and at a session that has not started one, where the first call on the clone
  starts it.
\<close>

theorem C4_witness:
  "fst (clone 0 (Inr site_store) resolved_world) = Inr 1
   \<and> jupyterSessionManager 1 (snd (clone 0 (Inr site_store) resolved_world)) =
       (0, snd (clone 0 (Inr site_store) resolved_world))
   \<and> promise_state_of 0 (snd (clone 0 (Inr site_store) resolved_world)) = Fulfilled Undefined
   \<and> store (sessions (snd (clone 0 (Inr site_store) resolved_world)) ! 1) = site_store
   \<and> trace (snd (clone 0 (Inr site_store) resolved_world)) = trace resolved_world
   \<and> acquisitions 1
        (snd (jupyterSessionManager 1 (snd (clone 0 (Inr site_store) one_session_world)))) = 1"
proof -
  have h: "(0::nat) < length (sessions resolved_world)"
    by (simp add: resolved_world_facts)
  note t = C4_clone_shares_and_copies [OF h, of site_store 0]
  have c1: "fst (clone 0 (Inr site_store) resolved_world) = Inr 1"
    using t [THEN conjunct1] by (simp add: resolved_world_facts)
  have c4: "store (sessions (snd (clone 0 (Inr site_store) resolved_world)) ! 1) = site_store"
    using t [THEN conjunct2, THEN conjunct2, THEN conjunct2, THEN conjunct1]
    by (simp add: resolved_world_facts)
  have c8: "trace (snd (clone 0 (Inr site_store) resolved_world)) = trace resolved_world"
    using t [THEN conjunct2, THEN conjunct2, THEN conjunct2, THEN conjunct2, THEN conjunct2,
        THEN conjunct2, THEN conjunct2, THEN conjunct1] .
  have c10: "jupyterSessionManager 1 (snd (clone 0 (Inr site_store) resolved_world)) =
       (0, snd (clone 0 (Inr site_store) resolved_world))
     \<and> promise_state_of 0 (snd (clone 0 (Inr site_store) resolved_world)) = Fulfilled Undefined"
    using t [THEN conjunct2, THEN conjunct2, THEN conjunct2, THEN conjunct2, THEN conjunct2,
        THEN conjunct2, THEN conjunct2, THEN conjunct2, THEN conjunct2, THEN conjunct1,
        rule_format, OF resolved_world_facts(2)]
    by (simp add: resolved_world_facts)
  have h0: "(0::nat) < length (sessions one_session_world)"
    by (simp add: one_session_world_simps)
  have s0: "slot 0 one_session_world = None"
    by (simp add: slot_def one_session_world_simps fresh_session_simps)
  have c11: "acquisitions 1
        (snd (jupyterSessionManager 1 (snd (clone 0 (Inr site_store) one_session_world)))) = 1"
    using C4_clone_shares_and_copies [OF h0, of site_store 0, THEN conjunct2, THEN conjunct2,
        THEN conjunct2, THEN conjunct2, THEN conjunct2, THEN conjunct2, THEN conjunct2,
        THEN conjunct2, THEN conjunct2, THEN conjunct2, rule_format, OF s0]
    by (simp add: one_session_world_simps acquisitions_def)
  from c1 c10 c4 c8 c11 show ?thesis by (intro conjI) simp_all
qed

lemma teardowns_append: "teardowns (w\<lparr>trace := trace w @ es\<rparr>) =
    teardowns w + length (filter (\<lambda>e. case e of ManagerDisposed m \<Rightarrow> True | _ \<Rightarrow> False) es)"
  by (simp add: teardowns_def)

lemma then_dispose_once:
  "length (filter (\<lambda>e. case e of ManagerDisposed m \<Rightarrow> True | _ \<Rightarrow> False) (then_dispose ps)) \<le> 1"
  by (simp add: then_dispose_def manager_dispose_def
      split: promise_state.splits settled_value.splits option.splits)

lemma run_reaction_trace_cong:
  "promises w1 = promises w2 \<Longrightarrow> trace w1 = trace w2 \<Longrightarrow>
   trace (run_reaction w1 pr) = trace (run_reaction w2 pr)"
  by (cases "(w1, pr)" rule: run_reaction.cases)
     (auto split: promise_state.splits settled_value.splits)

lemma foldl_run_reaction_trace_cong:
  "promises w1 = promises w2 \<Longrightarrow> trace w1 = trace w2 \<Longrightarrow>
   trace (foldl run_reaction w1 rs) = trace (foldl run_reaction w2 rs)"
proof (induction rs arbitrary: w1 w2)
  case Nil
  then show ?case by simp
next
  case (Cons pr rs)
  have a: "promises (run_reaction w1 pr) = promises (run_reaction w2 pr)"
    using Cons.prems(1) by (simp add: run_reaction_promises)
  have b: "trace (run_reaction w1 pr) = trace (run_reaction w2 pr)"
    using Cons.prems by (rule run_reaction_trace_cong)
  show ?case
    unfolding foldl_Cons by (rule Cons.IH [OF a b])
qed

lemma dispose_set:
  "slot sid w = Some p \<Longrightarrow>
   dispose sid w =
     w\<lparr>reactions := reactions w @ [(p, DisposeManager)],
       sessions := (sessions w)
         [sid := (sessions w ! sid)\<lparr>jupyterSessionManagerPromise := None\<rparr>]\<rparr>"
  by (simp add: dispose_def slot_def)

lemma dispose_unset: "slot sid w = None \<Longrightarrow> dispose sid w = w"
  by (simp add: dispose_def slot_def)

lemma run_jobs_dispose_trace:
  assumes "slot sid w = Some p"
  shows "trace (run_jobs (dispose sid w)) =
         trace (run_jobs w) @ then_dispose (state (promises w ! p))"
proof -
  let ?w' = "dispose sid w"
  let ?x = "(p, DisposeManager)"
  have pr: "promises ?w' = promises w" by (rule dispose_promises)
  have tr: "trace ?w' = trace w" by (rule dispose_trace)
  have rs: "reactions ?w' = reactions w @ [?x]"
    using assms by (simp add: dispose_set)
  have st: "is_settled ?w' = is_settled w"
    by (simp add: is_settled_def pr fun_eq_iff)
  let ?ready = "filter (is_settled w) (reactions w)"
  let ?a = "?w'\<lparr>reactions := filter (\<lambda>pr. \<not> is_settled ?w' pr) (reactions ?w')\<rparr>"
  let ?b = "w\<lparr>reactions := filter (\<lambda>pr. \<not> is_settled w pr) (reactions w)\<rparr>"
  have same: "trace (foldl run_reaction ?a ?ready) = trace (foldl run_reaction ?b ?ready)"
    by (rule foldl_run_reaction_trace_cong) (simp_all add: pr tr)
  have pa: "promises (foldl run_reaction ?a ?ready) = promises w"
    by (simp add: foldl_run_reaction_promises pr)
  show ?thesis
  proof (cases "is_settled w ?x")
    case True
    then have "run_jobs ?w' = run_reaction (foldl run_reaction ?a ?ready) ?x"
      by (simp add: run_jobs_def rs st)
    then show ?thesis
      using same pa by (simp add: run_jobs_def)
  next
    case False
    then have p: "state (promises w ! p) = Pending"
      by (simp add: is_settled_def)
    from False have "run_jobs ?w' = foldl run_reaction ?a ?ready"
      by (simp add: run_jobs_def rs st)
    then show ?thesis
      using same p by (simp add: run_jobs_def then_dispose_def)
  qed
qed

text \<open>
  Claim C6.  A second \<^verbatim>\<open>dispose\<close> right after the first changes nothing.  \<^verbatim>\<open>dispose\<close> runs
  nothing itself (the trace and the promises are as before, so nothing can be raised to
  the caller); when the slot is set it leaves one teardown callback on the promise and
  clears the slot, and when the slot is empty it does nothing.  When the jobs run, the two
  calls together have added what the one callback does and no more: for a manager, its
  disposal, that of its kernel manager and, when the settings carry a \<^verbatim>\<open>dispose\<close>, that
  of the server; so at most one more manager is disposed than without the calls.
\<close>

theorem C6_dispose_idempotent:
  assumes "sid < length (sessions w)"
  shows "dispose sid (dispose sid w) = dispose sid w
       \<and> trace (dispose sid w) = trace w
       \<and> promises (dispose sid w) = promises w
       \<and> slot sid (dispose sid w) = None
       \<and> (slot sid w = None \<longrightarrow> dispose sid w = w)
       \<and> (slot sid w = Some p \<longrightarrow>
            reactions (dispose sid w) = reactions w @ [(p, DisposeManager)]
            \<and> trace (run_jobs (dispose sid (dispose sid w))) =
                trace (run_jobs w) @ then_dispose (promise_state_of p w))
       \<and> (promise_state_of p w = Fulfilled (Manager m) \<longrightarrow>
            then_dispose (promise_state_of p w) =
              ManagerDisposed m # KernelManagerDisposed m #
              (case partialServerSettings m of
                 Some ss \<Rightarrow> if has_dispose ss then [ServerDisposed ss] else []
               | None \<Rightarrow> []))
       \<and> teardowns (run_jobs (dispose sid (dispose sid w))) \<le> teardowns (run_jobs w) + 1"
proof -
  have none: "slot sid (dispose sid w) = None"
    using assms by (simp add: dispose_slot)
  then have idem: "dispose sid (dispose sid w) = dispose sid w"
    by (rule dispose_unset)
  have c5: "slot sid w = None \<longrightarrow> dispose sid w = w"
    by (simp add: dispose_unset)
  have c6: "slot sid w = Some p \<longrightarrow>
            reactions (dispose sid w) = reactions w @ [(p, DisposeManager)]
            \<and> trace (run_jobs (dispose sid (dispose sid w))) =
                trace (run_jobs w) @ then_dispose (promise_state_of p w)"
  proof
    assume sp: "slot sid w = Some p"
    then have "reactions (dispose sid w) = reactions w @ [(p, DisposeManager)]"
      by (simp add: dispose_set)
    moreover have "trace (run_jobs (dispose sid w)) =
                trace (run_jobs w) @ then_dispose (promise_state_of p w)"
      unfolding promise_state_of_def using sp by (rule run_jobs_dispose_trace)
    ultimately show "reactions (dispose sid w) = reactions w @ [(p, DisposeManager)]
            \<and> trace (run_jobs (dispose sid (dispose sid w))) =
                trace (run_jobs w) @ then_dispose (promise_state_of p w)"
      by (simp only: idem)
  qed
  have c7: "promise_state_of p w = Fulfilled (Manager m) \<longrightarrow>
            then_dispose (promise_state_of p w) =
              ManagerDisposed m # KernelManagerDisposed m #
              (case partialServerSettings m of
                 Some ss \<Rightarrow> if has_dispose ss then [ServerDisposed ss] else []
               | None \<Rightarrow> [])"
    by (simp add: then_dispose_def manager_dispose_def)
  have c8: "teardowns (run_jobs (dispose sid (dispose sid w))) \<le> teardowns (run_jobs w) + 1"
  proof (cases "slot sid w")
    case None
    then show ?thesis by (simp add: dispose_unset)
  next
    case (Some q)
    have "trace (run_jobs (dispose sid w)) =
            trace (run_jobs w) @ then_dispose (state (promises w ! q))"
      using Some by (rule run_jobs_dispose_trace)
    then have "teardowns (run_jobs (dispose sid w)) =
        teardowns (run_jobs w) +
        length (filter (\<lambda>e. case e of ManagerDisposed m \<Rightarrow> True | _ \<Rightarrow> False)
                  (then_dispose (state (promises w ! q))))"
      by (simp add: teardowns_def)
    with then_dispose_once [of "state (promises w ! q)"] show ?thesis
      by (simp add: idem)
  qed
  from idem dispose_trace [of sid w] dispose_promises [of sid w] none c5 c6 c7 c8
  show ?thesis by (intro conjI)
qed

text \<open>
  Claim C6 at a session that has launched its own server: two calls of \<^verbatim>\<open>dispose\<close> leave
  one callback, and one teardown of the manager, its kernel manager and the server
  follows; and at a session that never started an acquisition, where \<^verbatim>\<open>dispose\<close> does
  nothing.
\<close>

theorem C6_witness:
  "dispose 0 (dispose 0 owned_world) = dispose 0 owned_world
   \<and> reactions (dispose 0 (dispose 0 owned_world)) = [(0, DisposeManager)]
   \<and> trace (dispose 0 (dispose 0 owned_world)) = trace owned_world
   \<and> teardowns (run_jobs (dispose 0 (dispose 0 owned_world))) \<le> 1
   \<and> trace (run_jobs (dispose 0 (dispose 0 owned_world))) =
       trace (run_jobs owned_world) @
       [ManagerDisposed \<lparr>partialServerSettings =
          Some \<lparr>baseUrl = Some ''http://localhost:8888/'', token = Some ''s3cr3t'',
                appUrl = Some ''http://localhost:8888/'', has_dispose = True\<rparr>\<rparr>,
        KernelManagerDisposed \<lparr>partialServerSettings =
          Some \<lparr>baseUrl = Some ''http://localhost:8888/'', token = Some ''s3cr3t'',
                appUrl = Some ''http://localhost:8888/'', has_dispose = True\<rparr>\<rparr>,
        ServerDisposed \<lparr>baseUrl = Some ''http://localhost:8888/'', token = Some ''s3cr3t'',
                appUrl = Some ''http://localhost:8888/'', has_dispose = True\<rparr>]
   \<and> dispose 0 one_session_world = one_session_world"
proof -
  let ?m = "\<lparr>partialServerSettings =
          Some \<lparr>baseUrl = Some ''http://localhost:8888/'', token = Some ''s3cr3t'',
                appUrl = Some ''http://localhost:8888/'', has_dispose = True\<rparr>\<rparr>"
  have h: "(0::nat) < length (sessions owned_world)"
    by (simp add: owned_world_facts)
  note t = C6_dispose_idempotent [OF h, of 0 ?m]
  have idem: "dispose 0 (dispose 0 owned_world) = dispose 0 owned_world"
    using t [THEN conjunct1] .
  have tr: "trace (dispose 0 owned_world) = trace owned_world"
    using t [THEN conjunct2, THEN conjunct1] .
  note six = t [THEN conjunct2, THEN conjunct2, THEN conjunct2, THEN conjunct2, THEN conjunct2,
        THEN conjunct1, rule_format, OF owned_world_facts(2)]
  have re: "reactions (dispose 0 owned_world) = [(0, DisposeManager)]"
    using six [THEN conjunct1] by (simp add: owned_world_facts)
  have td: "teardowns (run_jobs (dispose 0 (dispose 0 owned_world))) \<le> 1"
    using t [THEN conjunct2, THEN conjunct2, THEN conjunct2, THEN conjunct2, THEN conjunct2,
        THEN conjunct2, THEN conjunct2]
    by (simp add: owned_world_facts)
  note seven = t [THEN conjunct2, THEN conjunct2, THEN conjunct2, THEN conjunct2, THEN conjunct2,
        THEN conjunct2, THEN conjunct1, rule_format, OF owned_world_facts(4)]
  have ef: "trace (run_jobs (dispose 0 (dispose 0 owned_world))) =
       trace (run_jobs owned_world) @
       [ManagerDisposed ?m, KernelManagerDisposed ?m,
        ServerDisposed \<lparr>baseUrl = Some ''http://localhost:8888/'', token = Some ''s3cr3t'',
                appUrl = Some ''http://localhost:8888/'', has_dispose = True\<rparr>]"
    using six [THEN conjunct2] seven by simp
  have h0: "(0::nat) < length (sessions one_session_world)"
    by (simp add: one_session_world_simps)
  have s0: "slot 0 one_session_world = None"
    by (simp add: slot_def one_session_world_simps fresh_session_simps)
  have no: "dispose 0 one_session_world = one_session_world"
    using C6_dispose_idempotent [OF h0, of 0, THEN conjunct2, THEN conjunct2, THEN conjunct2,
        THEN conjunct2, THEN conjunct1, rule_format, OF s0] .
  from idem re tr td ef no show ?thesis
    by (simp only: idem)
qed

section \<open>Properties of \<^verbatim>\<open>getAllWarnings\<close>\<close>

lemma first_occurrences_Nil: "first_occurrences canon [] = []"
  by (simp add: first_occurrences_def)

lemma first_occurrences_snoc:
  "first_occurrences canon (xs @ [y]) =
     first_occurrences canon xs @ (if canon y \<notin> canon ` set xs then [y] else [])"
proof -
  let ?P' = "\<lambda>i. canon ((xs @ [y]) ! i) \<notin> canon ` set (take i (xs @ [y]))"
  let ?P = "\<lambda>i. canon (xs ! i) \<notin> canon ` set (take i xs)"
  have up: "[0..<length (xs @ [y])] = [0..<length xs] @ [length xs]"
    by simp
  have a: "filter ?P' [0..<length xs] = filter ?P [0..<length xs]"
    by (rule filter_cong) (simp_all add: nth_append)
  have b: "map (\<lambda>i. (xs @ [y]) ! i) (filter ?P [0..<length xs])
           = map (\<lambda>i. xs ! i) (filter ?P [0..<length xs])"
    by (rule map_cong) (simp_all add: nth_append)
  have c: "map (\<lambda>i. (xs @ [y]) ! i) (filter ?P' [length xs])
           = (if canon y \<notin> canon ` set xs then [y] else [])"
    by simp
  have "first_occurrences canon (xs @ [y]) =
          map (\<lambda>i. (xs @ [y]) ! i) (filter ?P' [0..<length xs])
          @ map (\<lambda>i. (xs @ [y]) ! i) (filter ?P' [length xs])"
    unfolding first_occurrences_def up filter_append map_append ..
  also have "\<dots> = map (\<lambda>i. xs ! i) (filter ?P [0..<length xs])
                   @ (if canon y \<notin> canon ` set xs then [y] else [])"
    unfolding a b c ..
  finally show ?thesis
    unfolding first_occurrences_def .
qed

lemma set_first_occurrences:
  "canon ` set (first_occurrences canon xs) = canon ` set xs"
  by (induction xs rule: rev_induct)
     (auto simp: first_occurrences_Nil first_occurrences_snoc)

lemma distinct_first_occurrences: "distinct (map canon (first_occurrences canon xs))"
proof (induction xs rule: rev_induct)
  case Nil
  then show ?case by (simp add: first_occurrences_Nil)
next
  case (snoc y xs)
  have "canon y \<notin> canon ` set xs \<Longrightarrow> canon y \<notin> canon ` set (first_occurrences canon xs)"
    by (simp add: set_first_occurrences)
  with snoc show ?case
    by (simp add: first_occurrences_snoc)
qed

lemma subseq_first_occurrences: "subseq (first_occurrences canon xs) xs"
proof (induction xs rule: rev_induct)
  case Nil
  then show ?case by (simp add: first_occurrences_Nil)
next
  case (snoc y xs)
  show ?case
  proof (cases "canon y \<notin> canon ` set xs")
    case True
    then show ?thesis using snoc by (simp add: first_occurrences_snoc)
  next
    case False
    then show ?thesis using snoc by (simp add: first_occurrences_snoc subseq_rev_drop_many)
  qed
qed

lemma length_first_occurrences:
  "length (first_occurrences canon xs) = card (canon ` set xs)"
proof -
  have "length (first_occurrences canon xs) = length (map canon (first_occurrences canon xs))"
    by simp
  also have "\<dots> = card (set (map canon (first_occurrences canon xs)))"
    by (rule distinct_card [symmetric]) (rule distinct_first_occurrences)
  also have "\<dots> = card (canon ` set xs)"
    by (simp add: set_first_occurrences)
  finally show ?thesis .
qed

lemma visit_warning_step:
  "visit_warning (map stringWarning_of (first_occurrences stringWarning_of xs),
                  first_occurrences stringWarning_of xs) y =
   (map stringWarning_of (first_occurrences stringWarning_of (xs @ [y])),
    first_occurrences stringWarning_of (xs @ [y]))"
proof -
  have "set (map stringWarning_of (first_occurrences stringWarning_of xs)) =
        stringWarning_of ` set xs"
    by (simp add: set_first_occurrences)
  then show ?thesis
    by (simp add: visit_warning_def first_occurrences_snoc Let_def)
qed

lemma foldl_visit_warning:
  "foldl visit_warning (map stringWarning_of (first_occurrences stringWarning_of xs),
                        first_occurrences stringWarning_of xs) ys =
   (map stringWarning_of (first_occurrences stringWarning_of (xs @ ys)),
    first_occurrences stringWarning_of (xs @ ys))"
proof (induction ys arbitrary: xs)
  case Nil
  then show ?case by simp
next
  case (Cons y ys)
  have "foldl visit_warning (map stringWarning_of (first_occurrences stringWarning_of xs),
                        first_occurrences stringWarning_of xs) (y # ys) =
        foldl visit_warning (map stringWarning_of (first_occurrences stringWarning_of (xs @ [y])),
                        first_occurrences stringWarning_of (xs @ [y])) ys"
    by (simp only: foldl_Cons visit_warning_step)
  also have "\<dots> = (map stringWarning_of (first_occurrences stringWarning_of ((xs @ [y]) @ ys)),
                     first_occurrences stringWarning_of ((xs @ [y]) @ ys))"
    by (rule Cons.IH)
  finally show ?case by simp
qed

lemma foldl_visit_session:
  "foldl (visit_session w ruleId)
     (map stringWarning_of (first_occurrences stringWarning_of xs),
      first_occurrences stringWarning_of xs) cs =
   (map stringWarning_of (first_occurrences stringWarning_of
        (xs @ concat (map (\<lambda>c. selectFileWarningsByRule (store (sessions w ! c)) ruleId) cs))),
    first_occurrences stringWarning_of
        (xs @ concat (map (\<lambda>c. selectFileWarningsByRule (store (sessions w ! c)) ruleId) cs)))"
proof (induction cs arbitrary: xs)
  case Nil
  then show ?case by simp
next
  case (Cons c cs)
  let ?ws = "selectFileWarningsByRule (store (sessions w ! c)) ruleId"
  have "foldl (visit_session w ruleId)
     (map stringWarning_of (first_occurrences stringWarning_of xs),
      first_occurrences stringWarning_of xs) (c # cs) =
     foldl (visit_session w ruleId)
     (map stringWarning_of (first_occurrences stringWarning_of (xs @ ?ws)),
      first_occurrences stringWarning_of (xs @ ?ws)) cs"
    by (simp only: foldl_Cons visit_session_def foldl_visit_warning)
  also note Cons.IH [of "xs @ ?ws"]
  finally show ?case by simp
qed

lemma getAllWarnings_first_occurrences:
  "getAllWarnings w sid ruleId =
     first_occurrences stringWarning_of (visited_warnings w sid ruleId)"
  using foldl_visit_session [of w ruleId "[]" "sid # clones (sessions w ! sid)"]
  by (simp add: getAllWarnings_def visited_warnings_def first_occurrences_Nil)

text \<open>
  Claim C5.  \<^verbatim>\<open>getAllWarnings\<close> returns the warnings of the origin and of its recorded
  clones, in the order of the visit, keeping a warning exactly when no warning visited
  before it has the same serialisation of its sorted entries.  So the serialisations of
  the result are pairwise different, every serialisation that was visited is represented,
  the result is a subsequence of the visited warnings, and its length is the number of
  different serialisations.
\<close>

theorem C5_getAllWarnings_deduplicates:
  "getAllWarnings w sid ruleId =
     first_occurrences stringWarning_of (visited_warnings w sid ruleId)
   \<and> distinct (map stringWarning_of (getAllWarnings w sid ruleId))
   \<and> stringWarning_of ` set (getAllWarnings w sid ruleId) =
       stringWarning_of ` set (visited_warnings w sid ruleId)
   \<and> subseq (getAllWarnings w sid ruleId) (visited_warnings w sid ruleId)
   \<and> length (getAllWarnings w sid ruleId) =
       card (stringWarning_of ` set (visited_warnings w sid ruleId))"
  by (simp add: getAllWarnings_first_occurrences distinct_first_occurrences
      set_first_occurrences subseq_first_occurrences length_first_occurrences)

lemmas json_defs =
  stringWarning_of_def sort_entries_def entry_toString_def element_toString_def
  stringify_entries_def join_def quote_def escape_char_def Number_toString_def digits.simps
  digit_char_def

lemma canon_link_reordered:
  "stringWarning_of link_warning_reordered = stringWarning_of link_warning"
  by (simp add: link_warning_def link_warning_reordered_def json_defs)

lemma canon_other:
  "stringWarning_of other_warning \<noteq> stringWarning_of link_warning"
  by (simp add: link_warning_def other_warning_def json_defs)

lemma visited_hierarchy:
  "visited_warnings hierarchy_world 0 ''link-resolves'' =
     [link_warning, link_warning_reordered, link_warning, other_warning]"
  by (simp add: visited_warnings_def hierarchy_world_def session_with_def
      selectFileWarningsByRule_def link_warning_def link_warning_reordered_def other_warning_def)

text \<open>
  Claim C5 at an origin and two clones that all report the same warning (one of them
  with the fields in another order), one clone reporting a second warning as well: two
  entries are returned.
\<close>

theorem C5_witness:
  "getAllWarnings hierarchy_world 0 ''link-resolves'' = [link_warning, other_warning]
   \<and> length (getAllWarnings hierarchy_world 0 ''link-resolves'') = 2"
proof -
  note ne = canon_other
  have "first_occurrences stringWarning_of
          [link_warning, link_warning_reordered, link_warning, other_warning] =
        [link_warning, other_warning]"
    using ne by (simp add: first_occurrences_def canon_link_reordered upt_rec take_Suc_conv_app_nth)
  with C5_getAllWarnings_deduplicates [of hierarchy_world 0 "''link-resolves''", THEN conjunct1]
  have "getAllWarnings hierarchy_world 0 ''link-resolves'' = [link_warning, other_warning]"
    by (simp only: visited_hierarchy)
  then show ?thesis by simp
qed


end
